theory Spec2Isabelle
  imports Main "HOL-Library.AList"
begin

section \<open>Data model of the signaling server (src/server/websocket-server.js)\<close>

text \<open>
  A WebSocket object is identified by a number; its \<open>readyState\<close> is owned by the
  ws library and only read by the server, so it lives in a store indexed by the socket.
  Client ids, session ids and viewer ids are JavaScript strings. A JavaScript \<open>Map\<close>
  is an association list in insertion order with one entry per key:
  \<open>get\<close> is \<open>map_of\<close>, \<open>set\<close> is \<open>AList.update\<close> (an existing key keeps its place),
  \<open>delete\<close> is \<open>AList.delete\<close>, \<open>size\<close> is \<open>length\<close>.
\<close>

type_synonym ws = nat

datatype ready_state = CONNECTING | OPEN | CLOSING | CLOSED

datatype role = Host | Viewer

datatype json =
    JNull
  | JBool bool
  | JNum int
  | JStr string
  | JArr "json list"
  | JObj "(string \<times> json) list"

record client =
  ws :: ws
  sessionId :: "string option"
  ctype :: "role option"
  connectedAt :: int
  lastPong :: int
  viewerId :: "string option"

text \<open>
  The value of the \<open>dataTransferred\<close> counter. JavaScript numbers are doubles and \<open>+=\<close>
  also concatenates strings, so the counter is followed only while it is an integer that a
  double holds exactly: \<open>ExactInt a\<close> is the number \<open>a\<close>. \<open>OtherValue\<close> says that the
  model has stopped following the value (it may be a rounded or non-integer double,
  \<open>NaN\<close> or a string); nothing is proved about such a counter.
\<close>

datatype js_number = ExactInt int | OtherValue

record session_stats =
  totalViewers :: nat
  peakViewers :: nat
  dataTransferred :: js_number

record session =
  hostClientId :: string
  hostWs :: ws
  viewers :: "(string \<times> ws) list"
  createdAt :: int
  stats :: session_stats

record server_stats =
  totalConnections :: nat
  activeSessions :: int
  startTime :: int

record server =
  sessions :: "(string \<times> session) list"
  clientToSession :: "(string \<times> string) list"
  clientToViewerId :: "(string \<times> string) list"
  clients :: "(string \<times> client) list"
  serverStats :: server_stats
  clock :: int
  readyState :: "ws \<Rightarrow> ready_state"

text \<open>
  The \<open>bytesTransferred\<close> field of the payload \<open>d\<close> of a stats frame: absent, an
  integer, or any other JSON value (a non-integer number, a string, a boolean, \<open>null\<close>, an
  array, an object).
\<close>

datatype js_count = CountAbsent | CountInt int | CountOther

record host_stats =
  bytesTransferred :: js_count

text \<open>Inbound frames, discriminated by \<open>t\<close>; \<open>Malformed\<close> is data on which
  \<open>JSON.parse\<close> or the read of \<open>message.t\<close> throws.\<close>

datatype message =
    HostReadyMsg string
  | ViewerJoinMsg string string
  | OfferMsg string json string
  | AnswerMsg string json
  | IceCandidateMsg string json "string option"
  | CursorMsg string json
  | StatsMsg string "host_stats option"
  | PingMsg
  | UnknownMsg string

datatype inbound = Malformed | Parsed message

text \<open>Outbound frames, as the server serialises them.\<close>

datatype frame =
    HostReadyAck string
  | ViewerJoined string nat
  | ViewerJoinedAck string string
  | OfferFrame string json string
  | AnswerFrame string json string
  | IceFromHost string json
  | IceFromViewer string json "string option"
  | CursorFrame string json
  | ViewerCountChanged string nat
  | HostDisconnected string
  | PongFrame
  | ErrorFrame string

text \<open>What a handler sends: the socket written to and the frame, in order.\<close>

type_synonym deliveries = "(ws \<times> frame) list"

text \<open>What the health check does to a socket, with the client id of the registry entry.\<close>

datatype hc_action = WsPing string ws | WsTerminate string ws

section \<open>Sending\<close>

text \<open>\<open>sendToClient(clientId, message)\<close>; the id is \<open>None\<close> when the caller passes
  the \<open>null\<close> that \<open>getViewerClientId\<close> returns.\<close>

definition sendToClient :: "server \<Rightarrow> string option \<Rightarrow> frame \<Rightarrow> deliveries" where
  "sendToClient st cid msg =
     (case cid of
        None \<Rightarrow> []
      | Some c \<Rightarrow>
          (case map_of (clients st) c of
             None \<Rightarrow> []
           | Some cl \<Rightarrow> if readyState st (ws cl) = OPEN then [(ws cl, msg)] else []))"

definition sendError :: "server \<Rightarrow> ws \<Rightarrow> string \<Rightarrow> deliveries" where
  "sendError st w text = (if readyState st w = OPEN then [(w, ErrorFrame text)] else [])"

definition getViewerClientId :: "server \<Rightarrow> ws \<Rightarrow> string option" where
  "getViewerClientId st w = map_option fst (find (\<lambda>(c, cl). ws cl = w) (clients st))"

section \<open>Message handlers\<close>

definition handleHostReady :: "string \<Rightarrow> string \<Rightarrow> server \<Rightarrow> server \<times> deliveries" where
  "handleHostReady cid sid st =
     (case map_of (clients st) cid of
        None \<Rightarrow> (st, [])
      | Some cl \<Rightarrow>
          let st1 =
                (case map_of (sessions st) sid of
                   None \<Rightarrow>
                     st\<lparr>sessions :=
                          AList.update sid
                            \<lparr>hostClientId = cid, hostWs = ws cl, viewers = [],
                             createdAt = clock st,
                             stats = \<lparr>totalViewers = 0, peakViewers = 0, dataTransferred = ExactInt 0\<rparr>\<rparr>
                            (sessions st),
                        serverStats :=
                          (serverStats st)\<lparr>activeSessions := activeSessions (serverStats st) + 1\<rparr>\<rparr>
                 | Some sess \<Rightarrow>
                     st\<lparr>sessions :=
                          AList.update sid (sess\<lparr>hostClientId := cid, hostWs := ws cl\<rparr>)
                            (sessions st)\<rparr>);
              st2 =
                st1\<lparr>clients :=
                      AList.update cid (cl\<lparr>sessionId := Some sid, ctype := Some Host\<rparr>) (clients st1),
                    clientToSession := AList.update cid sid (clientToSession st1)\<rparr>
          in (st2, sendToClient st2 (Some cid) (HostReadyAck sid)))"

text \<open>\<open>handleViewerJoin\<close> returns \<open>None\<close> where the source throws: with no registry
  entry, \<open>client.ws\<close> is read on \<open>undefined\<close>.\<close>

definition handleViewerJoin ::
    "string \<Rightarrow> string \<Rightarrow> string \<Rightarrow> server \<Rightarrow> (server \<times> deliveries) option" where
  "handleViewerJoin cid sid vid st =
     (case map_of (clients st) cid of
        None \<Rightarrow> None
      | Some cl \<Rightarrow>
          (case map_of (sessions st) sid of
             None \<Rightarrow> Some (st, sendError st (ws cl) ''Session not found or client invalid'')
           | Some sess \<Rightarrow>
               let vs = AList.update vid (ws cl) (viewers sess);
                   sess' =
                     sess\<lparr>viewers := vs,
                          stats :=
                            (stats sess)\<lparr>totalViewers := totalViewers (stats sess) + 1,
                                         peakViewers := max (peakViewers (stats sess)) (length vs)\<rparr>\<rparr>;
                   st' =
                     st\<lparr>sessions := AList.update sid sess' (sessions st),
                        clientToSession := AList.update cid sid (clientToSession st),
                        clientToViewerId := AList.update cid vid (clientToViewerId st),
                        clients :=
                          AList.update cid
                            (cl\<lparr>sessionId := Some sid, ctype := Some Viewer, viewerId := Some vid\<rparr>)
                            (clients st)\<rparr>
               in Some (st',
                    sendToClient st' (Some (hostClientId sess')) (ViewerJoined vid (length vs)) @
                    sendToClient st' (Some cid) (ViewerJoinedAck sid vid))))"

definition handleOffer :: "string \<Rightarrow> string \<Rightarrow> json \<Rightarrow> string \<Rightarrow> server \<Rightarrow> deliveries" where
  "handleOffer cid sid d targetViewerId st =
     (case map_of (sessions st) sid of
        None \<Rightarrow> []
      | Some sess \<Rightarrow>
          if hostClientId sess \<noteq> cid then []
          else
            (case map_of (viewers sess) targetViewerId of
               None \<Rightarrow> []
             | Some targetViewerWs \<Rightarrow>
                 sendToClient st (getViewerClientId st targetViewerWs) (OfferFrame sid d cid)))"

text \<open>\<open>!viewerId\<close> also holds for the empty string.\<close>

definition handleAnswer :: "string \<Rightarrow> string \<Rightarrow> json \<Rightarrow> server \<Rightarrow> deliveries" where
  "handleAnswer cid sid d st =
     (case map_of (sessions st) sid of
        None \<Rightarrow> []
      | Some sess \<Rightarrow>
          (case map_of (clientToViewerId st) cid of
             None \<Rightarrow> []
           | Some vid \<Rightarrow>
               if vid = [] then []
               else sendToClient st (Some (hostClientId sess)) (AnswerFrame sid d vid)))"

text \<open>The truthiness test of \<open>client.sessionId\<close>: \<open>null\<close> and the empty string are falsy.\<close>

definition truthy :: "string option \<Rightarrow> bool" where
  "truthy v = (case v of None \<Rightarrow> False | Some s \<Rightarrow> s \<noteq> [])"

definition handleIceCandidate ::
    "string \<Rightarrow> string \<Rightarrow> json \<Rightarrow> string option \<Rightarrow> server \<Rightarrow> deliveries" where
  "handleIceCandidate cid sid d targetViewerId st =
     (case map_of (clients st) cid of
        None \<Rightarrow> []
      | Some cl \<Rightarrow>
          if \<not> truthy (sessionId cl) then []
          else
            (case map_of (sessions st) (the (sessionId cl)) of
               None \<Rightarrow> []
             | Some sess \<Rightarrow>
                 if ctype cl = Some Host then
                   (case targetViewerId of
                      None \<Rightarrow> []
                    | Some tv \<Rightarrow>
                        (case map_of (viewers sess) tv of
                           None \<Rightarrow> []
                         | Some viewerWs \<Rightarrow>
                             sendToClient st (getViewerClientId st viewerWs) (IceFromHost sid d)))
                 else if ctype cl = Some Viewer then
                   sendToClient st (Some (hostClientId sess)) (IceFromViewer sid d (viewerId cl))
                 else []))"

text \<open>\<open>new Set([...])\<close> keeps the first occurrence of each element, in order.\<close>

fun newSet :: "'a list \<Rightarrow> 'a list" where
  "newSet [] = []"
| "newSet (x # xs) = x # removeAll x (newSet xs)"

definition handleCursor :: "string \<Rightarrow> string \<Rightarrow> json \<Rightarrow> server \<Rightarrow> deliveries" where
  "handleCursor cid uid pos st =
     (case map_of (clients st) cid of
        None \<Rightarrow> []
      | Some cl \<Rightarrow>
          if \<not> truthy (sessionId cl) then []
          else
            (case map_of (sessions st) (the (sessionId cl)) of
               None \<Rightarrow> []
             | Some sess \<Rightarrow>
                 let recipients =
                       removeAll cid (newSet (hostClientId sess # map fst (viewers sess)))
                 in concat (map (\<lambda>recipientClientId.
                                   sendToClient st (Some recipientClientId) (CursorFrame uid pos))
                              recipients)))"

text \<open>
  \<open>session.stats.dataTransferred += stats.bytesTransferred || 0\<close>. An absent or zero count
  adds 0. Integers of magnitude at most \<open>2 ^ 53\<close> are doubles, and the sum of two of them
  is exact when it is again of magnitude at most \<open>2 ^ 53\<close>. At every other addition (a
  sum that a double may round, a count that is no integer, a counter no longer followed)
  the model stops following the counter.
\<close>

definition maxExact :: int where
  "maxExact = 2 ^ 53"

fun js_add :: "js_number \<Rightarrow> js_count \<Rightarrow> js_number" where
  "js_add (ExactInt a) CountAbsent =
     (if \<bar>a\<bar> \<le> maxExact then ExactInt a else OtherValue)"
| "js_add (ExactInt a) (CountInt n) =
     (if \<bar>a\<bar> \<le> maxExact \<and> \<bar>n\<bar> \<le> maxExact \<and> \<bar>a + n\<bar> \<le> maxExact
      then ExactInt (a + n) else OtherValue)"
| "js_add (ExactInt a) CountOther = OtherValue"
| "js_add OtherValue c = OtherValue"

text \<open>\<open>handleStats\<close> returns \<open>None\<close> where the source throws: the session exists and
  \<open>d\<close> is missing or \<open>null\<close>, so \<open>stats.bytesTransferred\<close> is read on it.\<close>

definition handleStats :: "string \<Rightarrow> string \<Rightarrow> host_stats option \<Rightarrow> server \<Rightarrow> server option" where
  "handleStats cid sid d st =
     (case map_of (sessions st) sid of
        None \<Rightarrow> Some st
      | Some sess \<Rightarrow>
          (case d of
             None \<Rightarrow> None
           | Some hs \<Rightarrow>
               Some (st\<lparr>sessions :=
                          AList.update sid
                            (sess\<lparr>stats :=
                                    (stats sess)\<lparr>dataTransferred :=
                                                   js_add (dataTransferred (stats sess))
                                                     (bytesTransferred hs)\<rparr>\<rparr>)
                            (sessions st)\<rparr>)))"

definition handleMessage :: "string \<Rightarrow> message \<Rightarrow> server \<Rightarrow> (server \<times> deliveries) option" where
  "handleMessage cid m st =
     (case map_of (clients st) cid of
        None \<Rightarrow> Some (st, [])
      | Some cl \<Rightarrow>
          (case m of
             HostReadyMsg sid \<Rightarrow> Some (handleHostReady cid sid st)
           | ViewerJoinMsg sid vid \<Rightarrow> handleViewerJoin cid sid vid st
           | OfferMsg sid d tv \<Rightarrow> Some (st, handleOffer cid sid d tv st)
           | AnswerMsg sid d \<Rightarrow> Some (st, handleAnswer cid sid d st)
           | IceCandidateMsg sid d tv \<Rightarrow> Some (st, handleIceCandidate cid sid d tv st)
           | CursorMsg uid pos \<Rightarrow> Some (st, handleCursor cid uid pos st)
           | StatsMsg sid d \<Rightarrow> map_option (\<lambda>st'. (st', [])) (handleStats cid sid d st)
           | PingMsg \<Rightarrow> Some (st, sendToClient st (Some cid) PongFrame)
           | UnknownMsg t \<Rightarrow> Some (st, [])))"

section \<open>Disconnection\<close>

definition handleDisconnection :: "string \<Rightarrow> server \<Rightarrow> server \<times> deliveries" where
  "handleDisconnection cid st =
     (let (st1, out) =
            (case map_of (clients st) cid of
               None \<Rightarrow> (st, [])
             | Some cl \<Rightarrow>
                 if \<not> truthy (sessionId cl) then (st, [])
                 else
                   (case map_of (sessions st) (the (sessionId cl)) of
                      None \<Rightarrow> (st, [])
                    | Some sess \<Rightarrow>
                        if ctype cl = Some Host then
                          (st\<lparr>sessions := AList.delete (the (sessionId cl)) (sessions st),
                              serverStats :=
                                (serverStats st)\<lparr>activeSessions :=
                                                   activeSessions (serverStats st) - 1\<rparr>\<rparr>,
                           concat (map (\<lambda>(vid, viewerWs).
                                          sendToClient st (getViewerClientId st viewerWs)
                                            (HostDisconnected (the (sessionId cl))))
                                     (viewers sess)))
                        else if ctype cl = Some Viewer then
                          (let vs = (case viewerId cl of
                                       None \<Rightarrow> viewers sess
                                     | Some vid \<Rightarrow> AList.delete vid (viewers sess));
                               st' = st\<lparr>sessions :=
                                          AList.update (the (sessionId cl)) (sess\<lparr>viewers := vs\<rparr>)
                                            (sessions st)\<rparr>
                           in (st',
                               sendToClient st' (Some (hostClientId sess))
                                 (ViewerCountChanged (the (sessionId cl)) (length vs))))
                        else (st, [])))
      in (st1\<lparr>clients := AList.delete cid (clients st1),
              clientToSession := AList.delete cid (clientToSession st1),
              clientToViewerId := AList.delete cid (clientToViewerId st1)\<rparr>,
          out))"

section \<open>Socket events\<close>

text \<open>The \<open>connection\<close> listener; the library hands over an open socket.\<close>

definition on_connection :: "string \<Rightarrow> ws \<Rightarrow> server \<Rightarrow> server" where
  "on_connection cid w st =
     st\<lparr>clients :=
          AList.update cid
            \<lparr>ws = w, sessionId = None, ctype = None, connectedAt = clock st,
             lastPong = clock st, viewerId = None\<rparr>
            (clients st),
        serverStats := (serverStats st)\<lparr>totalConnections := totalConnections (serverStats st) + 1\<rparr>,
        readyState := (readyState st)(w := OPEN)\<rparr>"

text \<open>The \<open>message\<close> listener of the socket \<open>w\<close> registered as \<open>cid\<close>: any exception is
  caught and answered with an error frame on \<open>w\<close>.\<close>

definition on_message :: "string \<Rightarrow> ws \<Rightarrow> inbound \<Rightarrow> server \<Rightarrow> server \<times> deliveries" where
  "on_message cid w data st =
     (case data of
        Malformed \<Rightarrow> (st, sendError st w ''Invalid message format'')
      | Parsed m \<Rightarrow>
          (case handleMessage cid m st of
             None \<Rightarrow> (st, sendError st w ''Invalid message format'')
           | Some r \<Rightarrow> r))"

text \<open>The \<open>close\<close> listener; the library has set the socket to CLOSED before it fires.\<close>

definition on_close :: "string \<Rightarrow> ws \<Rightarrow> server \<Rightarrow> server \<times> deliveries" where
  "on_close cid w st = handleDisconnection cid (st\<lparr>readyState := (readyState st)(w := CLOSED)\<rparr>)"

definition on_pong :: "string \<Rightarrow> server \<Rightarrow> server" where
  "on_pong cid st =
     (case map_of (clients st) cid of
        None \<Rightarrow> st
      | Some cl \<Rightarrow> st\<lparr>clients := AList.update cid (cl\<lparr>lastPong := clock st\<rparr>) (clients st)\<rparr>)"

section \<open>Health check\<close>

definition pongTimeout :: int where
  "pongTimeout = 60000"

text \<open>One visit of the \<open>forEach\<close> in \<open>setupHealthCheck\<close>. \<open>terminate()\<close> leaves the
  socket in CLOSING at once; its \<open>close\<close> event comes later.\<close>

definition healthCheckVisit ::
    "string \<times> client \<Rightarrow> server \<times> hc_action list \<Rightarrow> server \<times> hc_action list" where
  "healthCheckVisit entry acc =
     (case entry of (cid, cl) \<Rightarrow>
        (case acc of (st, acts) \<Rightarrow>
           if readyState st (ws cl) = OPEN then
             (if clock st - lastPong cl > pongTimeout then
                (st\<lparr>readyState := (readyState st)(ws cl := CLOSING)\<rparr>,
                 acts @ [WsTerminate cid (ws cl)])
              else (st, acts @ [WsPing cid (ws cl)]))
           else (st\<lparr>clients := AList.delete cid (clients st)\<rparr>, acts)))"

definition healthCheck :: "server \<Rightarrow> server \<times> hc_action list" where
  "healthCheck st = fold healthCheckVisit (clients st) (st, [])"

text \<open>The sockets of the registry entries, in registry order.\<close>

definition sockets :: "server \<Rightarrow> ws list" where
  "sockets st = map (\<lambda>entry. ws (snd entry)) (clients st)"

section \<open>The server as a transition system\<close>

text \<open>The constructor: empty maps, counters at zero, \<open>startTime\<close> read from the clock.\<close>

definition new_server :: "int \<Rightarrow> server" where
  "new_server now =
     \<lparr>sessions = [], clientToSession = [], clientToViewerId = [], clients = [],
      serverStats = \<lparr>totalConnections = 0, activeSessions = 0, startTime = now\<rparr>,
      clock = now, readyState = (\<lambda>w. CLOSED)\<rparr>"

text \<open>What can happen to the server: the socket events with the client id and socket
  their listeners close over, the health-check timer, and the two things the environment
  owns, the clock (\<open>Date.now()\<close>) and the \<open>readyState\<close> of a socket.\<close>

datatype event =
    Connection string ws
  | MessageEv string ws inbound
  | CloseEv string ws
  | PongEv string
  | HealthCheckEv
  | ClockEv int
  | ReadyStateEv ws ready_state

definition step :: "event \<Rightarrow> server \<Rightarrow> server" where
  "step e st =
     (case e of
        Connection cid w \<Rightarrow> on_connection cid w st
      | MessageEv cid w data \<Rightarrow> fst (on_message cid w data st)
      | CloseEv cid w \<Rightarrow> fst (on_close cid w st)
      | PongEv cid \<Rightarrow> on_pong cid st
      | HealthCheckEv \<Rightarrow> fst (healthCheck st)
      | ClockEv t \<Rightarrow> st\<lparr>clock := t\<rparr>
      | ReadyStateEv w r \<Rightarrow> st\<lparr>readyState := (readyState st)(w := r)\<rparr>)"

definition run :: "event list \<Rightarrow> server \<Rightarrow> server" where
  "run evs st = fold step evs st"

text \<open>The session \<open>sid\<close> is in the table before each of the events and after the last.\<close>

fun lives_through :: "string \<Rightarrow> event list \<Rightarrow> server \<Rightarrow> bool" where
  "lives_through sid [] st = (map_of (sessions st) sid \<noteq> None)"
| "lives_through sid (e # es) st =
     (map_of (sessions st) sid \<noteq> None \<and> lives_through sid es (step e st))"

text \<open>The viewer map of a session has one entry per viewer id, so that its length is
  its \<open>size\<close>, and the peak-viewer counter of the session bounds that size.\<close>

definition session_peak_ok :: "session \<Rightarrow> bool" where
  "session_peak_ok sess =
     (distinct (map fst (viewers sess)) \<and> length (viewers sess) \<le> peakViewers (stats sess))"

definition peak_ok :: "server \<Rightarrow> bool" where
  "peak_ok st = list_all (\<lambda>entry. session_peak_ok (snd entry)) (sessions st)"

text \<open>Every connection event of the list brings a socket that no earlier connection event
  (nor \<open>used\<close>) had: the ws library creates one WebSocket object per connection.\<close>

fun fresh_sockets :: "event list \<Rightarrow> ws list \<Rightarrow> bool" where
  "fresh_sockets [] used = True"
| "fresh_sockets (Connection cid w # es) used = (w \<notin> set used \<and> fresh_sockets es (w # used))"
| "fresh_sockets (e # es) used = fresh_sockets es used"

text \<open>The registry is a map (one entry per client id) and no two entries share a
  socket; all sockets are among \<open>used\<close>.\<close>

definition registry_ok :: "server \<Rightarrow> ws list \<Rightarrow> bool" where
  "registry_ok st used =
     (distinct (map fst (clients st)) \<and> distinct (sockets st) \<and> set (sockets st) \<subseteq> set used)"

section \<open>Scenarios\<close>

text \<open>Scenario A of the specification: a host connects on socket 1 and announces
  session \<open>abc\<close>. Scenario B: a viewer then connects on socket 2 and joins as \<open>v1\<close>.
  Scenario F: a second viewer connects on socket 3 and joins as \<open>v2\<close>.\<close>

definition evs_A :: "event list" where
  "evs_A =
     [Connection ''client_h'' 1,
      MessageEv ''client_h'' 1 (Parsed (HostReadyMsg ''abc''))]"

definition evs_B :: "event list" where
  "evs_B =
     evs_A @
     [Connection ''client_v1'' 2,
      MessageEv ''client_v1'' 2 (Parsed (ViewerJoinMsg ''abc'' ''v1''))]"

definition evs_F :: "event list" where
  "evs_F =
     evs_B @
     [Connection ''client_v2'' 3,
      MessageEv ''client_v2'' 3 (Parsed (ViewerJoinMsg ''abc'' ''v2''))]"

definition state_A :: server where
  "state_A = run evs_A (new_server 0)"

definition state_B :: server where
  "state_B = run evs_B (new_server 0)"

definition state_F :: server where
  "state_F = run evs_F (new_server 0)"

text \<open>After scenario A, one connection on socket 2 joins \<open>abc\<close> as \<open>v1\<close> and then
  again as \<open>v2\<close>.\<close>

definition state_rejoin :: server where
  "state_rejoin =
     run [Connection ''client_x'' 2,
          MessageEv ''client_x'' 2 (Parsed (ViewerJoinMsg ''abc'' ''v1'')),
          MessageEv ''client_x'' 2 (Parsed (ViewerJoinMsg ''abc'' ''v2''))] state_A"

text \<open>After scenario B, a second connection on socket 3 announces itself as the host of
  \<open>abc\<close> (the host page reconnects before its old socket has closed).\<close>

definition state_rehost :: server where
  "state_rehost =
     run [Connection ''client_b'' 3,
          MessageEv ''client_b'' 3 (Parsed (HostReadyMsg ''abc''))] state_B"

text \<open>After scenario B, the host's connection announces a second session \<open>xyz\<close>.\<close>

definition state_two_sessions :: server where
  "state_two_sessions =
     run [MessageEv ''client_h'' 1 (Parsed (HostReadyMsg ''xyz''))] state_B"

text \<open>After scenario B, the viewer's pong arrives at time 50000 and the clock reaches
  70000: the host's last pong is 70000 old, the viewer's 20000.\<close>

definition evs_hb :: "event list" where
  "evs_hb = evs_B @ [ClockEv 50000, PongEv ''client_v1'', ClockEv 70000]"

definition state_hb :: server where
  "state_hb = run evs_hb (new_server 0)"

section \<open>Evaluating the model\<close>

lemma run_Nil: "run [] st = st"
  by (simp add: run_def)

lemma run_Cons: "run (e # es) st = run es (step e st)"
  by (simp add: run_def)

lemma run_append: "run (es @ es') st = run es' (run es st)"
  by (simp add: run_def)

lemmas server_defs =
  run_Nil run_Cons step_def on_connection_def on_message_def on_close_def on_pong_def
  handleMessage_def handleHostReady_def handleViewerJoin_def handleOffer_def handleAnswer_def
  handleIceCandidate_def handleCursor_def handleStats_def handleDisconnection_def
  sendToClient_def sendError_def getViewerClientId_def truthy_def Let_def

lemma state_A_value:
  "state_A =
     \<lparr>sessions =
        [(''abc'',
          \<lparr>hostClientId = ''client_h'', hostWs = 1, viewers = [], createdAt = 0,
           stats = \<lparr>totalViewers = 0, peakViewers = 0, dataTransferred = ExactInt 0\<rparr>\<rparr>)],
      clientToSession = [(''client_h'', ''abc'')],
      clientToViewerId = [],
      clients =
        [(''client_h'',
          \<lparr>ws = 1, sessionId = Some ''abc'', ctype = Some Host, connectedAt = 0,
           lastPong = 0, viewerId = None\<rparr>)],
      serverStats = \<lparr>totalConnections = 1, activeSessions = 1, startTime = 0\<rparr>,
      clock = 0, readyState = (\<lambda>w. CLOSED)(1 := OPEN)\<rparr>"
  by (simp add: state_A_def evs_A_def new_server_def server_defs)

lemma state_B_value:
  "state_B =
     \<lparr>sessions =
        [(''abc'',
          \<lparr>hostClientId = ''client_h'', hostWs = 1, viewers = [(''v1'', 2)], createdAt = 0,
           stats = \<lparr>totalViewers = 1, peakViewers = 1, dataTransferred = ExactInt 0\<rparr>\<rparr>)],
      clientToSession = [(''client_h'', ''abc''), (''client_v1'', ''abc'')],
      clientToViewerId = [(''client_v1'', ''v1'')],
      clients =
        [(''client_h'',
          \<lparr>ws = 1, sessionId = Some ''abc'', ctype = Some Host, connectedAt = 0,
           lastPong = 0, viewerId = None\<rparr>),
         (''client_v1'',
          \<lparr>ws = 2, sessionId = Some ''abc'', ctype = Some Viewer, connectedAt = 0,
           lastPong = 0, viewerId = Some ''v1''\<rparr>)],
      serverStats = \<lparr>totalConnections = 2, activeSessions = 1, startTime = 0\<rparr>,
      clock = 0, readyState = (\<lambda>w. CLOSED)(1 := OPEN, 2 := OPEN)\<rparr>"
  (is "_ = ?v")
proof -
  have "state_B = run [Connection ''client_v1'' 2,
      MessageEv ''client_v1'' 2 (Parsed (ViewerJoinMsg ''abc'' ''v1''))] state_A"
    by (simp add: state_B_def evs_B_def state_A_def run_append)
  also have "\<dots> = ?v"
    by (simp add: state_A_value server_defs)
  finally show ?thesis .
qed

lemma state_F_value:
  "state_F =
     \<lparr>sessions =
        [(''abc'',
          \<lparr>hostClientId = ''client_h'', hostWs = 1, viewers = [(''v1'', 2), (''v2'', 3)],
           createdAt = 0,
           stats = \<lparr>totalViewers = 2, peakViewers = 2, dataTransferred = ExactInt 0\<rparr>\<rparr>)],
      clientToSession =
        [(''client_h'', ''abc''), (''client_v1'', ''abc''), (''client_v2'', ''abc'')],
      clientToViewerId = [(''client_v1'', ''v1''), (''client_v2'', ''v2'')],
      clients =
        [(''client_h'',
          \<lparr>ws = 1, sessionId = Some ''abc'', ctype = Some Host, connectedAt = 0,
           lastPong = 0, viewerId = None\<rparr>),
         (''client_v1'',
          \<lparr>ws = 2, sessionId = Some ''abc'', ctype = Some Viewer, connectedAt = 0,
           lastPong = 0, viewerId = Some ''v1''\<rparr>),
         (''client_v2'',
          \<lparr>ws = 3, sessionId = Some ''abc'', ctype = Some Viewer, connectedAt = 0,
           lastPong = 0, viewerId = Some ''v2''\<rparr>)],
      serverStats = \<lparr>totalConnections = 3, activeSessions = 1, startTime = 0\<rparr>,
      clock = 0, readyState = (\<lambda>w. CLOSED)(1 := OPEN, 2 := OPEN, 3 := OPEN)\<rparr>"
  (is "_ = ?v")
proof -
  have "state_F = run [Connection ''client_v2'' 3,
      MessageEv ''client_v2'' 3 (Parsed (ViewerJoinMsg ''abc'' ''v2''))] state_B"
    by (simp add: state_F_def evs_F_def state_B_def run_append)
  also have "\<dots> = ?v"
    by (simp add: state_B_value server_defs)
  finally show ?thesis .
qed

lemma state_rejoin_value:
  "state_rejoin =
     \<lparr>sessions =
        [(''abc'',
          \<lparr>hostClientId = ''client_h'', hostWs = 1, viewers = [(''v1'', 2), (''v2'', 2)],
           createdAt = 0,
           stats = \<lparr>totalViewers = 2, peakViewers = 2, dataTransferred = ExactInt 0\<rparr>\<rparr>)],
      clientToSession = [(''client_h'', ''abc''), (''client_x'', ''abc'')],
      clientToViewerId = [(''client_x'', ''v2'')],
      clients =
        [(''client_h'',
          \<lparr>ws = 1, sessionId = Some ''abc'', ctype = Some Host, connectedAt = 0,
           lastPong = 0, viewerId = None\<rparr>),
         (''client_x'',
          \<lparr>ws = 2, sessionId = Some ''abc'', ctype = Some Viewer, connectedAt = 0,
           lastPong = 0, viewerId = Some ''v2''\<rparr>)],
      serverStats = \<lparr>totalConnections = 2, activeSessions = 1, startTime = 0\<rparr>,
      clock = 0, readyState = (\<lambda>w. CLOSED)(1 := OPEN, 2 := OPEN)\<rparr>"
  by (simp add: state_rejoin_def state_A_value server_defs)

lemma state_rehost_value:
  "state_rehost =
     \<lparr>sessions =
        [(''abc'',
          \<lparr>hostClientId = ''client_b'', hostWs = 3, viewers = [(''v1'', 2)], createdAt = 0,
           stats = \<lparr>totalViewers = 1, peakViewers = 1, dataTransferred = ExactInt 0\<rparr>\<rparr>)],
      clientToSession =
        [(''client_h'', ''abc''), (''client_v1'', ''abc''), (''client_b'', ''abc'')],
      clientToViewerId = [(''client_v1'', ''v1'')],
      clients =
        [(''client_h'',
          \<lparr>ws = 1, sessionId = Some ''abc'', ctype = Some Host, connectedAt = 0,
           lastPong = 0, viewerId = None\<rparr>),
         (''client_v1'',
          \<lparr>ws = 2, sessionId = Some ''abc'', ctype = Some Viewer, connectedAt = 0,
           lastPong = 0, viewerId = Some ''v1''\<rparr>),
         (''client_b'',
          \<lparr>ws = 3, sessionId = Some ''abc'', ctype = Some Host, connectedAt = 0,
           lastPong = 0, viewerId = None\<rparr>)],
      serverStats = \<lparr>totalConnections = 3, activeSessions = 1, startTime = 0\<rparr>,
      clock = 0, readyState = (\<lambda>w. CLOSED)(1 := OPEN, 2 := OPEN, 3 := OPEN)\<rparr>"
  by (simp add: state_rehost_def state_B_value server_defs)

lemma state_two_sessions_value:
  "state_two_sessions =
     \<lparr>sessions =
        [(''abc'',
          \<lparr>hostClientId = ''client_h'', hostWs = 1, viewers = [(''v1'', 2)], createdAt = 0,
           stats = \<lparr>totalViewers = 1, peakViewers = 1, dataTransferred = ExactInt 0\<rparr>\<rparr>),
         (''xyz'',
          \<lparr>hostClientId = ''client_h'', hostWs = 1, viewers = [], createdAt = 0,
           stats = \<lparr>totalViewers = 0, peakViewers = 0, dataTransferred = ExactInt 0\<rparr>\<rparr>)],
      clientToSession = [(''client_h'', ''xyz''), (''client_v1'', ''abc'')],
      clientToViewerId = [(''client_v1'', ''v1'')],
      clients =
        [(''client_h'',
          \<lparr>ws = 1, sessionId = Some ''xyz'', ctype = Some Host, connectedAt = 0,
           lastPong = 0, viewerId = None\<rparr>),
         (''client_v1'',
          \<lparr>ws = 2, sessionId = Some ''abc'', ctype = Some Viewer, connectedAt = 0,
           lastPong = 0, viewerId = Some ''v1''\<rparr>)],
      serverStats = \<lparr>totalConnections = 2, activeSessions = 2, startTime = 0\<rparr>,
      clock = 0, readyState = (\<lambda>w. CLOSED)(1 := OPEN, 2 := OPEN)\<rparr>"
  by (simp add: state_two_sessions_def state_B_value server_defs)

lemma state_hb_value:
  "state_hb =
     \<lparr>sessions =
        [(''abc'',
          \<lparr>hostClientId = ''client_h'', hostWs = 1, viewers = [(''v1'', 2)], createdAt = 0,
           stats = \<lparr>totalViewers = 1, peakViewers = 1, dataTransferred = ExactInt 0\<rparr>\<rparr>)],
      clientToSession = [(''client_h'', ''abc''), (''client_v1'', ''abc'')],
      clientToViewerId = [(''client_v1'', ''v1'')],
      clients =
        [(''client_h'',
          \<lparr>ws = 1, sessionId = Some ''abc'', ctype = Some Host, connectedAt = 0,
           lastPong = 0, viewerId = None\<rparr>),
         (''client_v1'',
          \<lparr>ws = 2, sessionId = Some ''abc'', ctype = Some Viewer, connectedAt = 0,
           lastPong = 50000, viewerId = Some ''v1''\<rparr>)],
      serverStats = \<lparr>totalConnections = 2, activeSessions = 1, startTime = 0\<rparr>,
      clock = 70000, readyState = (\<lambda>w. CLOSED)(1 := OPEN, 2 := OPEN)\<rparr>"
  (is "_ = ?v")
proof -
  have "state_hb = run [ClockEv 50000, PongEv ''client_v1'', ClockEv 70000] state_B"
    by (simp add: state_hb_def evs_hb_def state_B_def run_append)
  also have "\<dots> = ?v"
    by (simp add: state_B_value server_defs)
  finally show ?thesis .
qed

section \<open>Association lists as JavaScript maps\<close>

lemma keys_update_present:
  "map_of al k = Some v \<Longrightarrow> map fst (AList.update k v' al) = map fst al"
  by (induction al) (auto split: if_splits)

lemma list_all_update:
  "list_all P al \<Longrightarrow> P (k, v) \<Longrightarrow> list_all P (AList.update k v al)"
  by (induction al) auto

lemma list_all_delete: "list_all P al \<Longrightarrow> list_all P (AList.delete k al)"
  by (induction al) auto

section \<open>The peak-viewer counter\<close>

lemma peak_ok_lookup:
  "peak_ok st \<Longrightarrow> map_of (sessions st) sid = Some sess \<Longrightarrow> session_peak_ok sess"
  by (force simp: peak_ok_def list_all_iff dest: map_of_SomeD)

lemma peak_ok_update:
  "peak_ok st \<Longrightarrow> session_peak_ok sess \<Longrightarrow>
   sessions st' = AList.update sid sess (sessions st) \<Longrightarrow> peak_ok st'"
  by (simp add: peak_ok_def list_all_update)

lemma peak_ok_delete:
  "peak_ok st \<Longrightarrow> sessions st' = AList.delete sid (sessions st) \<Longrightarrow> peak_ok st'"
  by (simp add: peak_ok_def list_all_delete)

lemma peak_ok_same: "peak_ok st \<Longrightarrow> sessions st' = sessions st \<Longrightarrow> peak_ok st'"
  by (simp add: peak_ok_def)

lemma healthCheck_fold_sessions:
  "sessions (fst (fold healthCheckVisit xs (st, acts))) = sessions st"
  by (induction xs arbitrary: st acts) (auto simp: healthCheckVisit_def)

lemma healthCheck_sessions: "sessions (fst (healthCheck st)) = sessions st"
  by (simp add: healthCheck_def healthCheck_fold_sessions)

lemma peak_ok_hostReady:
  assumes "peak_ok st"
  shows "peak_ok (fst (handleHostReady cid sid st))"
proof (cases "map_of (clients st) cid")
  case None
  then show ?thesis using assms by (simp add: handleHostReady_def)
next
  case (Some cl)
  show ?thesis
  proof (cases "map_of (sessions st) sid")
    case None
    show ?thesis
      by (rule peak_ok_update[OF assms, where sid = sid])
         (simp_all add: handleHostReady_def Let_def Some None session_peak_ok_def)
  next
    case sess: (Some sess)
    have "session_peak_ok (sess\<lparr>hostClientId := cid, hostWs := ws cl\<rparr>)"
      using peak_ok_lookup[OF assms sess] by (simp add: session_peak_ok_def)
    then show ?thesis
      by (rule peak_ok_update[OF assms, where sid = sid])
         (simp add: handleHostReady_def Let_def Some sess)
  qed
qed

lemma peak_ok_viewerJoin:
  assumes "peak_ok st" and "handleViewerJoin cid sid vid st = Some r"
  shows "peak_ok (fst r)"
proof (cases "map_of (clients st) cid")
  case None
  then show ?thesis using assms by (simp add: handleViewerJoin_def)
next
  case (Some cl)
  show ?thesis
  proof (cases "map_of (sessions st) sid")
    case None
    then show ?thesis using assms Some by (auto simp: handleViewerJoin_def)
  next
    case sess: (Some sess)
    have "session_peak_ok
            (sess\<lparr>viewers := AList.update vid (ws cl) (viewers sess),
                  stats := (stats sess)\<lparr>totalViewers := totalViewers (stats sess) + 1,
                    peakViewers := max (peakViewers (stats sess))
                      (length (AList.update vid (ws cl) (viewers sess)))\<rparr>\<rparr>)"
      using peak_ok_lookup[OF assms(1) sess]
      by (simp add: session_peak_ok_def distinct_update)
    then show ?thesis
      by (rule peak_ok_update[OF assms(1), where sid = sid])
         (use assms(2) Some sess in \<open>auto simp: handleViewerJoin_def Let_def\<close>)
  qed
qed

lemma peak_ok_stats:
  assumes "peak_ok st" and "handleStats cid sid d st = Some st'"
  shows "peak_ok st'"
proof (cases "map_of (sessions st) sid")
  case None
  then show ?thesis using assms by (simp add: handleStats_def)
next
  case (Some sess)
  obtain hs where d: "d = Some hs"
    using assms(2) Some by (cases d) (simp_all add: handleStats_def)
  have "session_peak_ok
          (sess\<lparr>stats := (stats sess)\<lparr>dataTransferred :=
             js_add (dataTransferred (stats sess)) (bytesTransferred hs)\<rparr>\<rparr>)"
    using peak_ok_lookup[OF assms(1) Some] by (simp add: session_peak_ok_def)
  then show ?thesis
    by (rule peak_ok_update[OF assms(1), where sid = sid])
       (use assms(2) Some d in \<open>auto simp: handleStats_def\<close>)
qed

lemma session_peak_ok_delete_viewer:
  "session_peak_ok sess \<Longrightarrow>
   session_peak_ok (sess\<lparr>viewers := AList.delete v (viewers sess)\<rparr>)"
  using length_delete_le[of v "viewers sess"]
  by (auto simp: session_peak_ok_def distinct_delete)

text \<open>What a disconnection does to the session table: nothing, the removal of one
  session, or the removal of one viewer from one session.\<close>

lemma handleDisconnection_sessions:
  "sessions (fst (handleDisconnection cid st)) = sessions st
   \<or> (\<exists>sid. sessions (fst (handleDisconnection cid st)) = AList.delete sid (sessions st))
   \<or> (\<exists>sid sess v. map_of (sessions st) sid = Some sess \<and>
         sessions (fst (handleDisconnection cid st)) =
           AList.update sid (sess\<lparr>viewers := AList.delete v (viewers sess)\<rparr>) (sessions st))
   \<or> (\<exists>sid sess. map_of (sessions st) sid = Some sess \<and>
         sessions (fst (handleDisconnection cid st)) = AList.update sid sess (sessions st))"
  by (auto simp: handleDisconnection_def Let_def split: option.splits prod.splits if_splits)

lemma peak_ok_disconnection:
  assumes "peak_ok st"
  shows "peak_ok (fst (handleDisconnection cid st))"
  using handleDisconnection_sessions[of cid st] assms
  by (auto intro: peak_ok_same peak_ok_delete peak_ok_update
      dest: peak_ok_lookup session_peak_ok_delete_viewer)

lemma peak_ok_message:
  assumes "peak_ok st"
  shows "peak_ok (fst (on_message cid w data st))"
proof (cases data)
  case Malformed
  then show ?thesis using assms by (simp add: on_message_def)
next
  case (Parsed m)
  show ?thesis
  proof (cases "handleMessage cid m st")
    case None
    then show ?thesis using assms Parsed by (simp add: on_message_def)
  next
    case (Some r)
    then have "peak_ok (fst r)"
      using assms peak_ok_hostReady[OF assms]
      by (cases m) (auto simp: handleMessage_def split: option.splits
          dest: peak_ok_viewerJoin peak_ok_stats)
    then show ?thesis using Some Parsed by (simp add: on_message_def)
  qed
qed

lemma peak_ok_step:
  assumes "peak_ok st"
  shows "peak_ok (step e st)"
proof (cases e)
  case (Connection cid w)
  then show ?thesis
    by (auto intro: peak_ok_same[OF assms] simp: step_def on_connection_def)
next
  case (MessageEv cid w data)
  then show ?thesis by (simp add: step_def peak_ok_message[OF assms])
next
  case (CloseEv cid w)
  have "peak_ok (st\<lparr>readyState := (readyState st)(w := CLOSED)\<rparr>)"
    by (rule peak_ok_same[OF assms]) simp
  then show ?thesis using CloseEv
    by (simp add: step_def on_close_def peak_ok_disconnection)
next
  case (PongEv cid)
  then show ?thesis
    by (auto intro: peak_ok_same[OF assms] simp: step_def on_pong_def split: option.splits)
next
  case HealthCheckEv
  then show ?thesis
    by (auto intro: peak_ok_same[OF assms] simp: step_def healthCheck_sessions)
next
  case (ClockEv t)
  then show ?thesis by (auto intro: peak_ok_same[OF assms] simp: step_def)
next
  case (ReadyStateEv w r)
  then show ?thesis by (auto intro: peak_ok_same[OF assms] simp: step_def)
qed

lemma peak_ok_run: "peak_ok st \<Longrightarrow> peak_ok (run evs st)"
  unfolding run_def by (induction evs arbitrary: st) (auto simp: peak_ok_step)

lemma peak_ok_new: "peak_ok (new_server t)"
  by (simp add: peak_ok_def new_server_def)

lemma peak_mono_hostReady:
  assumes "map_of (sessions st) k = Some s0"
    and "map_of (sessions (fst (handleHostReady cid sid st))) k = Some s1"
  shows "peakViewers (stats s0) \<le> peakViewers (stats s1)"
  using assms
  by (auto simp: handleHostReady_def Let_def update_conv' split: option.splits if_splits)

lemma peak_mono_viewerJoin:
  assumes "map_of (sessions st) k = Some s0"
    and "handleViewerJoin cid sid vid st = Some r"
    and "map_of (sessions (fst r)) k = Some s1"
  shows "peakViewers (stats s0) \<le> peakViewers (stats s1)"
  using assms
  by (auto simp: handleViewerJoin_def Let_def update_conv' split: option.splits if_splits)

lemma peak_mono_stats:
  assumes "map_of (sessions st) k = Some s0"
    and "handleStats cid sid d st = Some st'"
    and "map_of (sessions st') k = Some s1"
  shows "peakViewers (stats s0) \<le> peakViewers (stats s1)"
  using assms
  by (auto simp: handleStats_def update_conv' split: option.splits if_splits)

lemma peak_mono_disconnection:
  assumes "map_of (sessions st) k = Some s0"
    and "map_of (sessions (fst (handleDisconnection cid st))) k = Some s1"
  shows "peakViewers (stats s0) \<le> peakViewers (stats s1)"
  using handleDisconnection_sessions[of cid st] assms
  by (auto simp: update_conv' delete_conv' split: if_splits)

lemma peak_mono_message:
  assumes "map_of (sessions st) k = Some s0"
    and "map_of (sessions (fst (on_message cid w data st))) k = Some s1"
  shows "peakViewers (stats s0) \<le> peakViewers (stats s1)"
proof (cases data)
  case Malformed
  then show ?thesis using assms by (simp add: on_message_def)
next
  case (Parsed m)
  show ?thesis
  proof (cases "handleMessage cid m st")
    case None
    then show ?thesis using assms Parsed by (simp add: on_message_def)
  next
    case (Some r)
    then have r: "map_of (sessions (fst r)) k = Some s1"
      using assms(2) Parsed by (simp add: on_message_def)
    show ?thesis using Some r assms(1)
      by (cases m) (auto simp: handleMessage_def split: option.splits
          dest: peak_mono_viewerJoin peak_mono_stats peak_mono_hostReady)
  qed
qed

lemma peak_mono_step:
  assumes "map_of (sessions st) k = Some s0"
    and "map_of (sessions (step e st)) k = Some s1"
  shows "peakViewers (stats s0) \<le> peakViewers (stats s1)"
proof (cases e)
  case (MessageEv cid w data)
  then show ?thesis using assms peak_mono_message by (simp add: step_def)
next
  case (CloseEv cid w)
  then show ?thesis
    using assms
      peak_mono_disconnection[of "st\<lparr>readyState := (readyState st)(w := CLOSED)\<rparr>" k s0 cid s1]
    by (simp add: step_def on_close_def)
qed (use assms in \<open>auto simp: step_def on_connection_def on_pong_def healthCheck_sessions
       split: option.splits\<close>)

lemma peak_mono_lifetime:
  "lives_through sid es st \<Longrightarrow>
   peakViewers (stats (the (map_of (sessions st) sid)))
     \<le> peakViewers (stats (the (map_of (sessions (run es st)) sid)))"
proof (induction es arbitrary: st)
  case Nil
  then show ?case by (simp add: run_def)
next
  case (Cons e es)
  from Cons.prems obtain s0 where s0: "map_of (sessions st) sid = Some s0" by auto
  from Cons.prems have live: "lives_through sid es (step e st)" by simp
  then obtain s1 where s1: "map_of (sessions (step e st)) sid = Some s1"
    by (cases es) auto
  have "peakViewers (stats s0) \<le> peakViewers (stats s1)"
    by (rule peak_mono_step[OF s0 s1])
  moreover have "peakViewers (stats s1)
      \<le> peakViewers (stats (the (map_of (sessions (run es (step e st))) sid)))"
    using Cons.IH[OF live] s1 by simp
  ultimately show ?case using s0 by (simp add: run_def)
qed

text \<open>
  C10. In every state the server reaches from its start by any sequence of events,
  each session's viewer map has one entry per viewer id and the session's peak-viewer
  counter is at least the size of that map; and over any further events through which a
  session stays in the table, its peak-viewer counter does not decrease.
\<close>

theorem peak_viewers_invariant:
  "peak_ok (run evs (new_server t))
   \<and> (lives_through sid es (run evs (new_server t)) \<longrightarrow>
        peakViewers (stats (the (map_of (sessions (run evs (new_server t))) sid)))
          \<le> peakViewers (stats (the (map_of (sessions (run es (run evs (new_server t)))) sid))))"
  using peak_ok_run[OF peak_ok_new] peak_mono_lifetime by blast

text \<open>Witness: after scenario B the viewer leaves; the viewer map of \<open>abc\<close> is empty
  again and its peak stays 1.\<close>

theorem peak_viewers_invariant_witness:
  "lives_through ''abc'' [CloseEv ''client_v1'' 2] (run evs_B (new_server 0))
   \<and> peak_ok (run evs_B (new_server 0))
   \<and> peakViewers (stats (the (map_of (sessions (run evs_B (new_server 0))) ''abc''))) = 1
   \<and> peakViewers (stats (the (map_of
        (sessions (run [CloseEv ''client_v1'' 2] (run evs_B (new_server 0)))) ''abc''))) = 1
   \<and> viewers (the (map_of
        (sessions (run [CloseEv ''client_v1'' 2] (run evs_B (new_server 0)))) ''abc'')) = []"
proof -
  have live: "lives_through ''abc'' [CloseEv ''client_v1'' 2] (run evs_B (new_server 0))"
    unfolding state_B_def[symmetric] by (simp add: state_B_value server_defs)
  have after: "sessions (run [CloseEv ''client_v1'' 2] (run evs_B (new_server 0))) =
      [(''abc'', \<lparr>hostClientId = ''client_h'', hostWs = 1, viewers = [], createdAt = 0,
         stats = \<lparr>totalViewers = 1, peakViewers = 1, dataTransferred = ExactInt 0\<rparr>\<rparr>)]"
    unfolding state_B_def[symmetric] by (simp add: state_B_value server_defs)
  from peak_viewers_invariant[of evs_B 0 "''abc''" "[CloseEv ''client_v1'' 2]"] live
  have "peak_ok (run evs_B (new_server 0))"
    and "peakViewers (stats (the (map_of (sessions (run evs_B (new_server 0))) ''abc'')))
          \<le> peakViewers (stats (the (map_of
               (sessions (run [CloseEv ''client_v1'' 2] (run evs_B (new_server 0)))) ''abc'')))"
    by blast+
  moreover have "peakViewers (stats (the (map_of (sessions (run evs_B (new_server 0))) ''abc'')))
      = 1"
    unfolding state_B_def[symmetric] by (simp add: state_B_value)
  ultimately show ?thesis using live after by simp
qed

section \<open>Host re-registration\<close>

text \<open>
  C7. A host-ready for a session that is already in the table, from a registered
  connection, creates no second session record (the keys of the table and the
  active-session count are unchanged), replaces the host of the session by the sender's
  connection id and socket, and leaves the session's viewer map as it was.
\<close>

theorem host_ready_again_keeps_session:
  assumes "map_of (sessions st) sid = Some sess"
    and "map_of (clients st) cid = Some cl"
  shows "map fst (sessions (fst (handleHostReady cid sid st))) = map fst (sessions st)
       \<and> map_of (sessions (fst (handleHostReady cid sid st))) sid =
           Some (sess\<lparr>hostClientId := cid, hostWs := ws cl\<rparr>)
       \<and> viewers (the (map_of (sessions (fst (handleHostReady cid sid st))) sid)) = viewers sess
       \<and> activeSessions (serverStats (fst (handleHostReady cid sid st))) =
           activeSessions (serverStats st)"
  using assms
  by (simp add: handleHostReady_def Let_def keys_update_present update_conv')

text \<open>Witness: after scenario B the host sends host-ready for \<open>abc\<close> a second time.\<close>

theorem host_ready_again_keeps_session_witness:
  "map_of (sessions state_B) ''abc'' =
     Some \<lparr>hostClientId = ''client_h'', hostWs = 1, viewers = [(''v1'', 2)], createdAt = 0,
           stats = \<lparr>totalViewers = 1, peakViewers = 1, dataTransferred = ExactInt 0\<rparr>\<rparr>
   \<and> map_of (clients state_B) ''client_h'' =
     Some \<lparr>ws = 1, sessionId = Some ''abc'', ctype = Some Host, connectedAt = 0,
           lastPong = 0, viewerId = None\<rparr>
   \<and> map fst (sessions (fst (handleHostReady ''client_h'' ''abc'' state_B))) = [''abc'']
   \<and> viewers (the (map_of (sessions (fst (handleHostReady ''client_h'' ''abc'' state_B))) ''abc''))
       = [(''v1'', 2)]"
proof -
  have s: "map_of (sessions state_B) ''abc'' =
     Some \<lparr>hostClientId = ''client_h'', hostWs = 1, viewers = [(''v1'', 2)], createdAt = 0,
           stats = \<lparr>totalViewers = 1, peakViewers = 1, dataTransferred = ExactInt 0\<rparr>\<rparr>"
    by (simp add: state_B_value)
  have c: "map_of (clients state_B) ''client_h'' =
     Some \<lparr>ws = 1, sessionId = Some ''abc'', ctype = Some Host, connectedAt = 0,
           lastPong = 0, viewerId = None\<rparr>"
    by (simp add: state_B_value)
  have k: "map fst (sessions state_B) = [''abc'']"
    by (simp add: state_B_value)
  show ?thesis
    using host_ready_again_keeps_session[OF s c] s c k by simp
qed

section \<open>Shared facts about the handlers\<close>

lemma viewer_join_missing_session:
  assumes "map_of (clients st) cid = Some cl"
    and "map_of (sessions st) sid = None"
    and "readyState st (ws cl) = OPEN"
  shows "on_message cid (ws cl) (Parsed (ViewerJoinMsg sid vid)) st =
           (st, [(ws cl, ErrorFrame ''Session not found or client invalid'')])"
  using assms
  by (simp add: on_message_def handleMessage_def handleViewerJoin_def sendError_def)

lemma host_disconnection_effect:
  assumes "map_of (clients st) h = Some hcl"
    and "ctype hcl = Some Host"
    and "sessionId hcl = Some sid"
    and "sid \<noteq> []"
    and "map_of (sessions st) sid = Some sess"
  shows "handleDisconnection h st =
           (st\<lparr>sessions := AList.delete sid (sessions st),
               serverStats := (serverStats st)\<lparr>activeSessions := activeSessions (serverStats st) - 1\<rparr>,
               clients := AList.delete h (clients st),
               clientToSession := AList.delete h (clientToSession st),
               clientToViewerId := AList.delete h (clientToViewerId st)\<rparr>,
            concat (map (\<lambda>(vid, viewerWs).
                           sendToClient st (getViewerClientId st viewerWs) (HostDisconnected sid))
                      (viewers sess)))"
  using assms by (simp add: handleDisconnection_def truthy_def)

lemma handleDisconnection_unregisters:
  "map_of (clients (fst (handleDisconnection cid st))) cid = None
   \<and> map_of (clientToSession (fst (handleDisconnection cid st))) cid = None
   \<and> map_of (clientToViewerId (fst (handleDisconnection cid st))) cid = None"
  by (auto simp: handleDisconnection_def Let_def delete_conv' split: prod.splits)

section \<open>Offers\<close>

text \<open>
  C1 (amended). When the host of a session sends an offer naming the session and a viewer
  id that is in the session's viewer map, exactly one frame is sent: the offer with the
  payload \<open>d\<close> unchanged and the host's connection id as \<open>hostId\<close>, on the socket stored
  under that viewer id, which belongs to the registered connection \<open>c\<close>; this needs that
  socket to be open. Nothing else is sent and the state is unchanged.
\<close>

theorem offer_reaches_stored_transport:
  assumes "map_of (clients st) h = Some hcl"
    and "map_of (sessions st) sid = Some sess"
    and "hostClientId sess = h"
    and "map_of (viewers sess) v = Some w"
    and "getViewerClientId st w = Some c"
    and "map_of (clients st) c = Some cl"
    and "ws cl = w"
    and "readyState st w = OPEN"
  shows "on_message h hw (Parsed (OfferMsg sid d v)) st = (st, [(w, OfferFrame sid d h)])"
  using assms
  by (simp add: on_message_def handleMessage_def handleOffer_def sendToClient_def)

text \<open>Witness: scenario D, the host of scenario B offers to \<open>v1\<close>.\<close>

theorem offer_reaches_stored_transport_witness:
  "hostClientId (the (map_of (sessions state_B) ''abc'')) = ''client_h''
   \<and> map_of (viewers (the (map_of (sessions state_B) ''abc''))) ''v1'' = Some 2
   \<and> getViewerClientId state_B 2 = Some ''client_v1''
   \<and> ws (the (map_of (clients state_B) ''client_v1'')) = 2
   \<and> readyState state_B 2 = OPEN
   \<and> on_message ''client_h'' 1 (Parsed (OfferMsg ''abc'' (JStr ''sdp'') ''v1'')) state_B =
       (state_B, [(2, OfferFrame ''abc'' (JStr ''sdp'') ''client_h'')])"
proof -
  let ?sess = "\<lparr>hostClientId = ''client_h'', hostWs = 1, viewers = [(''v1'', 2)], createdAt = 0,
           stats = \<lparr>totalViewers = 1, peakViewers = 1, dataTransferred = ExactInt 0\<rparr>\<rparr>"
  let ?h = "\<lparr>ws = 1, sessionId = Some ''abc'', ctype = Some Host, connectedAt = 0,
           lastPong = 0, viewerId = None\<rparr>"
  let ?v = "\<lparr>ws = 2, sessionId = Some ''abc'', ctype = Some Viewer, connectedAt = 0,
           lastPong = 0, viewerId = Some ''v1''\<rparr>"
  have h1: "map_of (clients state_B) ''client_h'' = Some ?h" by (simp add: state_B_value)
  have h2: "map_of (sessions state_B) ''abc'' = Some ?sess" by (simp add: state_B_value)
  have h3: "hostClientId ?sess = ''client_h''" by simp
  have h4: "map_of (viewers ?sess) ''v1'' = Some 2" by simp
  have h5: "getViewerClientId state_B 2 = Some ''client_v1''"
    by (simp add: state_B_value getViewerClientId_def)
  have h6: "map_of (clients state_B) ''client_v1'' = Some ?v" by (simp add: state_B_value)
  have h7: "ws ?v = 2" by simp
  have h8: "readyState state_B 2 = OPEN" by (simp add: state_B_value)
  show ?thesis
    using offer_reaches_stored_transport[OF h1 h2 h3 h4 h5 h6 h7 h8, of 1 "JStr ''sdp''"]
      h2 h5 h6 h8
    by simp
qed

text \<open>Counterexample to C1 as stated: a connection that joined \<open>abc\<close> as \<open>v1\<close> and then as
  \<open>v2\<close> has (sessionId, viewerId) = (abc, v2), yet it is the one that receives the offer
  addressed to \<open>v1\<close>.\<close>

theorem offer_recipient_counterexample:
  "hostClientId (the (map_of (sessions state_rejoin) ''abc'')) = ''client_h''
   \<and> map_of (viewers (the (map_of (sessions state_rejoin) ''abc''))) ''v1'' = Some 2
   \<and> ws (the (map_of (clients state_rejoin) ''client_x'')) = 2
   \<and> sessionId (the (map_of (clients state_rejoin) ''client_x'')) = Some ''abc''
   \<and> viewerId (the (map_of (clients state_rejoin) ''client_x'')) = Some ''v2''
   \<and> snd (on_message ''client_h'' 1 (Parsed (OfferMsg ''abc'' (JStr ''sdp'') ''v1'')) state_rejoin)
       = [(2, OfferFrame ''abc'' (JStr ''sdp'') ''client_h'')]"
  by (simp add: state_rejoin_value server_defs)

section \<open>Cursor fan-out\<close>

text \<open>
  C2 (the code at scenario F). With the host, \<open>v1\<close> and \<open>v2\<close> joined, the cursor frame
  of \<open>v1\<close> is delivered to the host's socket 1 only: the recipients are the host's
  client id and the viewer ids \<open>v1\<close>, \<open>v2\<close>, which are not client ids of the registry,
  so socket 3 of \<open>v2\<close> receives nothing. A cursor frame of the host reaches nobody.
\<close>

theorem cursor_scenario_F_reaches_host_only:
  "snd (on_message ''client_v1'' 2
          (Parsed (CursorMsg ''v1'' (JObj [(''x'', JNum 10), (''y'', JNum 20)]))) state_F)
     = [(1, CursorFrame ''v1'' (JObj [(''x'', JNum 10), (''y'', JNum 20)]))]
   \<and> snd (on_message ''client_h'' 1
          (Parsed (CursorMsg ''h'' (JObj [(''x'', JNum 10), (''y'', JNum 20)]))) state_F)
     = []"
  by (simp add: state_F_value server_defs)

section \<open>Host reconnection\<close>

text \<open>
  C3 (the code at the reconnect). After connection \<open>client_b\<close> has replaced \<open>client_h\<close>
  as the host of \<open>abc\<close>, the close of \<open>client_h\<close>'s socket removes the session and tells
  the viewer that the host has disconnected, although \<open>client_b\<close> is still connected.
\<close>

theorem old_host_close_removes_session:
  "hostClientId (the (map_of (sessions state_rehost) ''abc'')) = ''client_b''
   \<and> viewers (the (map_of (sessions state_rehost) ''abc'')) = [(''v1'', 2)]
   \<and> map_of (clients state_rehost) ''client_b'' \<noteq> None
   \<and> map_of (sessions (fst (on_close ''client_h'' 1 state_rehost))) ''abc'' = None
   \<and> map_of (clients (fst (on_close ''client_h'' 1 state_rehost))) ''client_b'' \<noteq> None
   \<and> snd (on_close ''client_h'' 1 state_rehost) = [(2, HostDisconnected ''abc'')]"
  by (simp add: state_rehost_value server_defs)

section \<open>Joining\<close>

lemma length_update_present:
  "map_of al k = Some v \<Longrightarrow> length (AList.update k v' al) = length al"
  by (induction al) (auto split: if_splits)

text \<open>
  C4 (amended). A viewer-join from a registered connection naming a viewer id that the
  session's viewer map already holds is accepted: the entry of that id now holds the
  joining connection's socket, the keys (and so the size) of the viewer map are
  unchanged, the total-viewers counter grows by one. What is sent is exactly the
  notification \<open>viewer-joined\<close> with the viewer id and the unchanged viewer count to the
  session's host, followed by the acknowledgment to the sender, each if its client id is
  registered with an open socket; no error frame is sent. With the host registered and
  both sockets open these are exactly two frames; with no registry entry for the host,
  the acknowledgment alone.
\<close>

theorem duplicate_viewer_join_overwrites:
  assumes "map_of (clients st) cid = Some cl"
    and "map_of (sessions st) sid = Some sess"
    and "map_of (viewers sess) u = Some w0"
  shows "\<exists>st' out sess'.
           handleViewerJoin cid sid u st = Some (st', out)
         \<and> map_of (sessions st') sid = Some sess'
         \<and> map_of (viewers sess') u = Some (ws cl)
         \<and> map fst (viewers sess') = map fst (viewers sess)
         \<and> totalViewers (stats sess') = totalViewers (stats sess) + 1
         \<and> out = sendToClient st (Some (hostClientId sess))
                    (ViewerJoined u (length (viewers sess))) @
                  sendToClient st (Some cid) (ViewerJoinedAck sid u)
         \<and> (\<forall>hcl. map_of (clients st) (hostClientId sess) = Some hcl
                \<and> readyState st (ws hcl) = OPEN \<and> readyState st (ws cl) = OPEN
              \<longrightarrow> out = [(ws hcl, ViewerJoined u (length (viewers sess))),
                          (ws cl, ViewerJoinedAck sid u)])
         \<and> (map_of (clients st) (hostClientId sess) = None \<and> readyState st (ws cl) = OPEN
              \<longrightarrow> out = [(ws cl, ViewerJoinedAck sid u)])
         \<and> (\<forall>w t. (w, ErrorFrame t) \<notin> set out)"
proof -
  let ?vs = "AList.update u (ws cl) (viewers sess)"
  let ?sess' = "sess\<lparr>viewers := ?vs,
      stats := (stats sess)\<lparr>totalViewers := totalViewers (stats sess) + 1,
                 peakViewers := max (peakViewers (stats sess)) (length ?vs)\<rparr>\<rparr>"
  let ?cl' = "cl\<lparr>sessionId := Some sid, ctype := Some Viewer, viewerId := Some u\<rparr>"
  let ?st' = "st\<lparr>sessions := AList.update sid ?sess' (sessions st),
      clientToSession := AList.update cid sid (clientToSession st),
      clientToViewerId := AList.update cid u (clientToViewerId st),
      clients := AList.update cid ?cl' (clients st)\<rparr>"
  let ?out = "sendToClient st (Some (hostClientId sess))
                (ViewerJoined u (length (viewers sess))) @
              sendToClient st (Some cid) (ViewerJoinedAck sid u)"
  have len: "length ?vs = length (viewers sess)"
    by (rule length_update_present[OF assms(3)])
  have join: "handleViewerJoin cid sid u st = Some (?st', ?out)"
    using assms(1,2) len
    by (auto simp: handleViewerJoin_def Let_def sendToClient_def update_conv'
        split: option.splits)
  have s': "map_of (sessions ?st') sid = Some ?sess'"
    by (simp add: update_conv')
  have v': "map_of (viewers ?sess') u = Some (ws cl)"
    by (simp add: update_conv')
  have k': "map fst (viewers ?sess') = map fst (viewers sess)"
    using assms(3) by (simp add: keys_update_present)
  have t': "totalViewers (stats ?sess') = totalViewers (stats sess) + 1"
    by simp
  have both: "?out = [(ws hcl, ViewerJoined u (length (viewers sess))),
                      (ws cl, ViewerJoinedAck sid u)]"
    if "map_of (clients st) (hostClientId sess) = Some hcl"
       "readyState st (ws hcl) = OPEN" "readyState st (ws cl) = OPEN" for hcl
    using that assms(1) by (simp add: sendToClient_def)
  have alone: "?out = [(ws cl, ViewerJoinedAck sid u)]"
    if "map_of (clients st) (hostClientId sess) = None" "readyState st (ws cl) = OPEN"
    using that assms(1) by (simp add: sendToClient_def)
  have noerr: "\<And>w t. (w, ErrorFrame t) \<notin> set ?out"
    by (auto simp: sendToClient_def split: option.splits if_splits)
  show ?thesis
  proof (intro exI conjI)
    show "handleViewerJoin cid sid u st = Some (?st', ?out)" by (rule join)
    show "map_of (sessions ?st') sid = Some ?sess'" by (rule s')
    show "map_of (viewers ?sess') u = Some (ws cl)" by (rule v')
    show "map fst (viewers ?sess') = map fst (viewers sess)" by (rule k')
    show "totalViewers (stats ?sess') = totalViewers (stats sess) + 1" by (rule t')
    show "?out = ?out" by (rule refl)
    show "\<forall>hcl. map_of (clients st) (hostClientId sess) = Some hcl
            \<and> readyState st (ws hcl) = OPEN \<and> readyState st (ws cl) = OPEN
          \<longrightarrow> ?out = [(ws hcl, ViewerJoined u (length (viewers sess))),
                      (ws cl, ViewerJoinedAck sid u)]"
      using both by blast
    show "map_of (clients st) (hostClientId sess) = None \<and> readyState st (ws cl) = OPEN
          \<longrightarrow> ?out = [(ws cl, ViewerJoinedAck sid u)]"
      using alone by blast
    show "\<forall>w t. (w, ErrorFrame t) \<notin> set ?out"
      using noerr by blast
  qed
qed

text \<open>Witness: after scenario B a new connection on socket 3 joins \<open>abc\<close> as \<open>v1\<close>; the
  host on socket 1 is told that \<open>v1\<close> joined and that there is 1 viewer.\<close>

theorem duplicate_viewer_join_overwrites_witness:
  "map_of (clients (on_connection ''client_y'' 3 state_B)) ''client_y'' \<noteq> None
   \<and> map_of (viewers (the (map_of (sessions (on_connection ''client_y'' 3 state_B)) ''abc'')))
        ''v1'' = Some 2
   \<and> (\<exists>st' out sess'.
         handleViewerJoin ''client_y'' ''abc'' ''v1'' (on_connection ''client_y'' 3 state_B)
           = Some (st', out)
       \<and> map_of (sessions st') ''abc'' = Some sess'
       \<and> map_of (viewers sess') ''v1'' = Some 3
       \<and> map fst (viewers sess') = [''v1'']
       \<and> out = [(1, ViewerJoined ''v1'' 1), (3, ViewerJoinedAck ''abc'' ''v1'')])"
proof -
  let ?st = "on_connection ''client_y'' 3 state_B"
  let ?y = "\<lparr>ws = 3, sessionId = None, ctype = None, connectedAt = 0, lastPong = 0,
           viewerId = None\<rparr>"
  let ?h = "\<lparr>ws = 1, sessionId = Some ''abc'', ctype = Some Host, connectedAt = 0,
           lastPong = 0, viewerId = None\<rparr>"
  let ?sess = "\<lparr>hostClientId = ''client_h'', hostWs = 1, viewers = [(''v1'', 2)], createdAt = 0,
           stats = \<lparr>totalViewers = 1, peakViewers = 1, dataTransferred = ExactInt 0\<rparr>\<rparr>"
  have c: "map_of (clients ?st) ''client_y'' = Some ?y"
    by (simp add: state_B_value on_connection_def)
  have s: "map_of (sessions ?st) ''abc'' = Some ?sess"
    by (simp add: state_B_value on_connection_def)
  have v: "map_of (viewers ?sess) ''v1'' = Some 2" by simp
  have h: "map_of (clients ?st) (hostClientId ?sess) = Some ?h"
    by (simp add: state_B_value on_connection_def)
  have r: "readyState ?st (ws ?h) = OPEN" "readyState ?st (ws ?y) = OPEN"
    by (simp_all add: state_B_value on_connection_def)
  from duplicate_viewer_join_overwrites[OF c s v]
  obtain st' out sess' where j:
    "handleViewerJoin ''client_y'' ''abc'' ''v1'' ?st = Some (st', out)"
    "map_of (sessions st') ''abc'' = Some sess'"
    "map_of (viewers sess') ''v1'' = Some (ws ?y)"
    "map fst (viewers sess') = map fst (viewers ?sess)"
    and two: "\<forall>hcl. map_of (clients ?st) (hostClientId ?sess) = Some hcl
                \<and> readyState ?st (ws hcl) = OPEN \<and> readyState ?st (ws ?y) = OPEN
              \<longrightarrow> out = [(ws hcl, ViewerJoined ''v1'' (length (viewers ?sess))),
                          (ws ?y, ViewerJoinedAck ''abc'' ''v1'')]"
    by blast
  from two h r have "out = [(ws ?h, ViewerJoined ''v1'' (length (viewers ?sess))),
                          (ws ?y, ViewerJoinedAck ''abc'' ''v1'')]"
    by blast
  with j have "\<exists>st' out sess'.
         handleViewerJoin ''client_y'' ''abc'' ''v1'' ?st = Some (st', out)
       \<and> map_of (sessions st') ''abc'' = Some sess'
       \<and> map_of (viewers sess') ''v1'' = Some 3
       \<and> map fst (viewers sess') = [''v1'']
       \<and> out = [(1, ViewerJoined ''v1'' 1), (3, ViewerJoinedAck ''abc'' ''v1'')]"
    by simp
  then show ?thesis using c s by simp
qed

text \<open>Counterexample to C4 as stated: the join is answered with the acknowledgment and
  the host's notification, and the entry of \<open>v1\<close> changes from socket 2 to socket 3.\<close>

theorem duplicate_viewer_join_counterexample:
  "map_of (viewers (the (map_of (sessions (on_connection ''client_y'' 3 state_B)) ''abc'')))
     ''v1'' = Some 2
   \<and> map_of (viewers (the (map_of (sessions (fst
        (on_message ''client_y'' 3 (Parsed (ViewerJoinMsg ''abc'' ''v1''))
           (on_connection ''client_y'' 3 state_B)))) ''abc''))) ''v1'' = Some 3
   \<and> snd (on_message ''client_y'' 3 (Parsed (ViewerJoinMsg ''abc'' ''v1''))
           (on_connection ''client_y'' 3 state_B))
     = [(1, ViewerJoined ''v1'' 1), (3, ViewerJoinedAck ''abc'' ''v1'')]"
  by (simp add: state_B_value server_defs)

text \<open>
  C5 (amended). A registered connection with an open socket that sends viewer-join for a
  session identifier not in the table receives exactly one frame, the error with the
  message \<open>Session not found or client invalid\<close>, and the server's state is unchanged:
  no session is created, the sender's role and registry entry stay as they were.
\<close>

theorem join_unknown_session:
  assumes "map_of (clients st) cid = Some cl"
    and "map_of (sessions st) sid = None"
    and "readyState st (ws cl) = OPEN"
  shows "on_message cid (ws cl) (Parsed (ViewerJoinMsg sid vid)) st =
           (st, [(ws cl, ErrorFrame ''Session not found or client invalid'')])"
  by (rule viewer_join_missing_session[OF assms])

text \<open>Witness: scenario C, a fresh connection on socket 2 joins the unknown \<open>zzz\<close>.\<close>

theorem join_unknown_session_witness:
  "map_of (clients (on_connection ''client_v2'' 2 state_A)) ''client_v2'' =
     Some \<lparr>ws = 2, sessionId = None, ctype = None, connectedAt = 0, lastPong = 0,
           viewerId = None\<rparr>
   \<and> map_of (sessions (on_connection ''client_v2'' 2 state_A)) ''zzz'' = None
   \<and> readyState (on_connection ''client_v2'' 2 state_A) 2 = OPEN
   \<and> on_message ''client_v2'' 2 (Parsed (ViewerJoinMsg ''zzz'' ''v2''))
        (on_connection ''client_v2'' 2 state_A) =
      (on_connection ''client_v2'' 2 state_A,
       [(2, ErrorFrame ''Session not found or client invalid'')])"
proof -
  let ?st = "on_connection ''client_v2'' 2 state_A"
  let ?cl = "\<lparr>ws = 2, sessionId = None, ctype = None, connectedAt = 0, lastPong = 0,
           viewerId = None\<rparr>"
  have c: "map_of (clients ?st) ''client_v2'' = Some ?cl"
    by (simp add: state_A_value on_connection_def)
  have s: "map_of (sessions ?st) ''zzz'' = None"
    by (simp add: state_A_value on_connection_def)
  have r: "readyState ?st (ws ?cl) = OPEN"
    by (simp add: state_A_value on_connection_def)
  show ?thesis
    using join_unknown_session[OF c s r, of "''v2''"] c s r by simp
qed

text \<open>Counterexample to C5 as stated: the reply is not the frame with the message
  \<open>Session not found\<close>.\<close>

theorem join_unknown_session_text_counterexample:
  "snd (on_message ''client_v2'' 2 (Parsed (ViewerJoinMsg ''zzz'' ''v2''))
          (on_connection ''client_v2'' 2 state_A))
     = [(2, ErrorFrame ''Session not found or client invalid'')]
   \<and> snd (on_message ''client_v2'' 2 (Parsed (ViewerJoinMsg ''zzz'' ''v2''))
          (on_connection ''client_v2'' 2 state_A))
     \<noteq> [(2, ErrorFrame ''Session not found'')]"
  by (simp add: state_A_value server_defs)

section \<open>Host disconnection\<close>

lemma host_disconnection_ends_session:
  assumes "map_of (clients st) h = Some hcl"
    and "ctype hcl = Some Host"
    and "sessionId hcl = Some sid"
    and "sid \<noteq> []"
    and "map_of (sessions st) sid = Some sess"
  shows "map_of (sessions (fst (handleDisconnection h st))) sid = None"
    and "\<And>v w c cl. (v, w) \<in> set (viewers sess) \<Longrightarrow> getViewerClientId st w = Some c \<Longrightarrow>
           map_of (clients st) c = Some cl \<Longrightarrow> readyState st (ws cl) = OPEN \<Longrightarrow>
           (ws cl, HostDisconnected sid) \<in> set (snd (handleDisconnection h st))"
    and "readyState (fst (handleDisconnection h st)) = readyState st"
proof -
  note eff = host_disconnection_effect[OF assms]
  show "map_of (sessions (fst (handleDisconnection h st))) sid = None"
    by (simp add: eff delete_conv')
  show "readyState (fst (handleDisconnection h st)) = readyState st"
    by (simp add: eff)
  fix v w c cl
  assume that: "(v, w) \<in> set (viewers sess)" "getViewerClientId st w = Some c"
    "map_of (clients st) c = Some cl" "readyState st (ws cl) = OPEN"
  have "(ws cl, HostDisconnected sid)
      \<in> set (sendToClient st (getViewerClientId st w) (HostDisconnected sid))"
    using that by (simp add: sendToClient_def)
  then show "(ws cl, HostDisconnected sid) \<in> set (snd (handleDisconnection h st))"
    using that(1) by (force simp: eff)
qed

text \<open>
  C6 (amended). Let the connection \<open>h\<close> be registered with role host and the non-empty
  session id \<open>sid\<close>, and let \<open>sid\<close> be in the table with \<open>h\<close> as its host. When the
  socket \<open>hw\<close> of \<open>h\<close> closes, the session is removed from the table; every registered
  connection with an open socket other than \<open>hw\<close> that is found for a socket of the
  session's viewer map is sent \<open>host-disconnected\<close> with \<open>sid\<close>; and a viewer-join for
  \<open>sid\<close> that a registered, open connection sends next is answered with the error frame
  of a missing session.
\<close>

theorem host_close_ends_session:
  assumes "map_of (clients st) h = Some hcl"
    and "ctype hcl = Some Host"
    and "sessionId hcl = Some sid"
    and "sid \<noteq> []"
    and "map_of (sessions st) sid = Some sess"
    and "hostClientId sess = h"
  shows "map_of (sessions (fst (on_close h hw st))) sid = None
       \<and> (\<forall>v w c cl. (v, w) \<in> set (viewers sess) \<and> getViewerClientId st w = Some c
             \<and> map_of (clients st) c = Some cl \<and> ws cl \<noteq> hw \<and> readyState st (ws cl) = OPEN
           \<longrightarrow> (ws cl, HostDisconnected sid) \<in> set (snd (on_close h hw st)))
       \<and> (\<forall>c cl v. map_of (clients (fst (on_close h hw st))) c = Some cl
             \<and> readyState (fst (on_close h hw st)) (ws cl) = OPEN
           \<longrightarrow> on_message c (ws cl) (Parsed (ViewerJoinMsg sid v)) (fst (on_close h hw st)) =
                 (fst (on_close h hw st),
                  [(ws cl, ErrorFrame ''Session not found or client invalid'')]))"
proof -
  let ?st0 = "st\<lparr>readyState := (readyState st)(hw := CLOSED)\<rparr>"
  have c0: "map_of (clients ?st0) h = Some hcl" and s0: "map_of (sessions ?st0) sid = Some sess"
    using assms(1,5) by simp_all
  note d = host_disconnection_ends_session[OF c0 assms(2,3,4) s0]
  have gone: "map_of (sessions (fst (on_close h hw st))) sid = None"
    using d(1) by (simp add: on_close_def)
  have told: "(ws cl, HostDisconnected sid) \<in> set (snd (on_close h hw st))"
    if "(v, w) \<in> set (viewers sess)" "getViewerClientId st w = Some c"
       "map_of (clients st) c = Some cl" "ws cl \<noteq> hw" "readyState st (ws cl) = OPEN"
    for v w c cl
  proof -
    have "getViewerClientId ?st0 w = Some c"
      using that(2) by (simp add: getViewerClientId_def)
    moreover have "map_of (clients ?st0) c = Some cl" using that(3) by simp
    moreover have "readyState ?st0 (ws cl) = OPEN" using that(4,5) by simp
    ultimately show ?thesis using d(2)[OF that(1)] by (simp add: on_close_def)
  qed
  have later: "on_message c (ws cl) (Parsed (ViewerJoinMsg sid v)) (fst (on_close h hw st)) =
       (fst (on_close h hw st), [(ws cl, ErrorFrame ''Session not found or client invalid'')])"
    if "map_of (clients (fst (on_close h hw st))) c = Some cl"
       "readyState (fst (on_close h hw st)) (ws cl) = OPEN" for c cl v
    by (rule viewer_join_missing_session[OF that(1) gone that(2)])
  show ?thesis using gone told later by blast
qed

text \<open>Witness: scenario E, the socket of the host of scenario B closes.\<close>

theorem host_close_ends_session_witness:
  "ctype (the (map_of (clients state_B) ''client_h'')) = Some Host
   \<and> sessionId (the (map_of (clients state_B) ''client_h'')) = Some ''abc''
   \<and> hostClientId (the (map_of (sessions state_B) ''abc'')) = ''client_h''
   \<and> map_of (sessions (fst (on_close ''client_h'' 1 state_B))) ''abc'' = None
   \<and> (2, HostDisconnected ''abc'') \<in> set (snd (on_close ''client_h'' 1 state_B))
   \<and> on_message ''client_v1'' 2 (Parsed (ViewerJoinMsg ''abc'' ''v1''))
        (fst (on_close ''client_h'' 1 state_B)) =
      (fst (on_close ''client_h'' 1 state_B),
       [(2, ErrorFrame ''Session not found or client invalid'')])"
proof -
  let ?sess = "\<lparr>hostClientId = ''client_h'', hostWs = 1, viewers = [(''v1'', 2)], createdAt = 0,
           stats = \<lparr>totalViewers = 1, peakViewers = 1, dataTransferred = ExactInt 0\<rparr>\<rparr>"
  let ?h = "\<lparr>ws = 1, sessionId = Some ''abc'', ctype = Some Host, connectedAt = 0,
           lastPong = 0, viewerId = None\<rparr>"
  let ?v = "\<lparr>ws = 2, sessionId = Some ''abc'', ctype = Some Viewer, connectedAt = 0,
           lastPong = 0, viewerId = Some ''v1''\<rparr>"
  let ?st' = "fst (on_close ''client_h'' 1 state_B)"
  have h1: "map_of (clients state_B) ''client_h'' = Some ?h" by (simp add: state_B_value)
  have h2: "ctype ?h = Some Host" by simp
  have h3: "sessionId ?h = Some ''abc''" by simp
  have h4: "''abc'' \<noteq> []" by simp
  have h5: "map_of (sessions state_B) ''abc'' = Some ?sess" by (simp add: state_B_value)
  have h6: "hostClientId ?sess = ''client_h''" by simp
  note t = host_close_ends_session[OF h1 h2 h3 h4 h5 h6, of 1]
  have v1: "(''v1'', 2) \<in> set (viewers ?sess)" by simp
  have v2: "getViewerClientId state_B 2 = Some ''client_v1''"
    by (simp add: state_B_value getViewerClientId_def)
  have v3: "map_of (clients state_B) ''client_v1'' = Some ?v" by (simp add: state_B_value)
  have v4: "ws ?v \<noteq> 1" by simp
  have v5: "readyState state_B (ws ?v) = OPEN" by (simp add: state_B_value)
  have a1: "map_of (clients ?st') ''client_v1'' = Some ?v"
    by (simp add: state_B_value server_defs)
  have a2: "readyState ?st' (ws ?v) = OPEN"
    by (simp add: state_B_value server_defs)
  from t have gone: "map_of (sessions ?st') ''abc'' = None" by blast
  from t v1 v2 v3 v4 v5
  have told: "(ws ?v, HostDisconnected ''abc'') \<in> set (snd (on_close ''client_h'' 1 state_B))"
    by blast
  from t a1 a2
  have later: "on_message ''client_v1'' (ws ?v) (Parsed (ViewerJoinMsg ''abc'' ''v1'')) ?st' =
      (?st', [(ws ?v, ErrorFrame ''Session not found or client invalid'')])"
    by blast
  show ?thesis using gone told later h1 h5 by simp
qed

text \<open>Counterexample to C6 as stated: \<open>client_h\<close> is the host of \<open>abc\<close> and of \<open>xyz\<close>;
  when its socket closes, \<open>abc\<close> stays in the table and its viewer is told nothing.\<close>

theorem host_close_counterexample:
  "hostClientId (the (map_of (sessions state_two_sessions) ''abc'')) = ''client_h''
   \<and> viewers (the (map_of (sessions state_two_sessions) ''abc'')) = [(''v1'', 2)]
   \<and> snd (on_close ''client_h'' 1 state_two_sessions) = []
   \<and> map_of (clients (fst (on_close ''client_h'' 1 state_two_sessions))) ''client_h'' = None
   \<and> map fst (sessions (fst (on_close ''client_h'' 1 state_two_sessions))) = [''abc'']"
  by (simp add: state_two_sessions_value server_defs)

section \<open>Stats\<close>




section \<open>The registry holds one socket per connection\<close>

lemma sockets_update_same_ws:
  "map_of al k = Some v \<Longrightarrow> ws v' = ws v \<Longrightarrow>
   map (\<lambda>entry. ws (snd entry)) (AList.update k v' al) = map (\<lambda>entry. ws (snd entry)) al"
  by (induction al) (auto split: if_splits)

lemma sockets_update_set:
  "set (map (\<lambda>entry. ws (snd entry)) (AList.update k v al))
     \<subseteq> insert (ws v) (set (map (\<lambda>entry. ws (snd entry)) al))"
  by (induction al) auto

lemma sockets_update_distinct:
  "distinct (map (\<lambda>entry. ws (snd entry)) al) \<Longrightarrow>
   ws v \<notin> set (map (\<lambda>entry. ws (snd entry)) al) \<Longrightarrow>
   distinct (map (\<lambda>entry. ws (snd entry)) (AList.update k v al))"
proof (induction al)
  case Nil
  then show ?case by simp
next
  case (Cons x al)
  have "set (map (\<lambda>entry. ws (snd entry)) (AList.update k v al))
     \<subseteq> insert (ws v) (set (map (\<lambda>entry. ws (snd entry)) al))"
    by (rule sockets_update_set)
  then show ?case using Cons by (auto split: if_splits)
qed

lemma sockets_delete:
  "distinct (map (\<lambda>entry. ws (snd entry)) al) \<Longrightarrow>
   distinct (map (\<lambda>entry. ws (snd entry)) (AList.delete k al))
   \<and> set (map (\<lambda>entry. ws (snd entry)) (AList.delete k al))
       \<subseteq> set (map (\<lambda>entry. ws (snd entry)) al)"
  by (induction al) auto

lemma registry_ok_same:
  "registry_ok st used \<Longrightarrow> clients st' = clients st \<Longrightarrow> registry_ok st' used"
  by (simp add: registry_ok_def sockets_def)

lemma registry_ok_touch:
  assumes "registry_ok st used"
    and "map_of (clients st) k = Some v"
    and "ws v' = ws v"
    and "clients st' = AList.update k v' (clients st)"
  shows "registry_ok st' used"
  using assms sockets_update_same_ws[OF assms(2,3)]
  by (simp add: registry_ok_def sockets_def distinct_update)

lemma registry_ok_delete:
  assumes "registry_ok st used"
    and "clients st' = AList.delete k (clients st)"
  shows "registry_ok st' used"
  using assms sockets_delete[of "clients st" k]
  by (auto simp: registry_ok_def sockets_def distinct_delete)

lemma registry_ok_connection:
  assumes "registry_ok st used" and "w \<notin> set used"
  shows "registry_ok (on_connection cid w st) (w # used)"
proof -
  let ?new = "\<lparr>ws = w, sessionId = None, ctype = None, connectedAt = clock st,
             lastPong = clock st, viewerId = None\<rparr>"
  have c: "clients (on_connection cid w st) = AList.update cid ?new (clients st)"
    by (simp add: on_connection_def)
  have "ws ?new \<notin> set (map (\<lambda>entry. ws (snd entry)) (clients st))"
    using assms by (auto simp: registry_ok_def sockets_def)
  then have "distinct (map (\<lambda>entry. ws (snd entry)) (AList.update cid ?new (clients st)))"
    using assms(1) by (intro sockets_update_distinct) (simp_all add: registry_ok_def sockets_def)
  moreover have "set (map (\<lambda>entry. ws (snd entry)) (AList.update cid ?new (clients st)))
      \<subseteq> set (w # used)"
    using sockets_update_set[of cid ?new "clients st"] assms(1)
    by (auto simp: registry_ok_def sockets_def)
  ultimately show ?thesis using assms(1) c
    by (simp add: registry_ok_def sockets_def distinct_update)
qed

lemma handleDisconnection_clients:
  "clients (fst (handleDisconnection cid st)) = AList.delete cid (clients st)"
  by (auto simp: handleDisconnection_def Let_def split: option.splits prod.splits)

lemma registry_ok_message:
  assumes "registry_ok st used"
  shows "registry_ok (fst (on_message cid w data st)) used"
proof (cases data)
  case Malformed
  then show ?thesis using assms by (simp add: on_message_def)
next
  case (Parsed m)
  show ?thesis
  proof (cases "map_of (clients st) cid")
    case None
    then show ?thesis using assms Parsed
      by (simp add: on_message_def handleMessage_def)
  next
    case (Some cl)
    have touch: "\<And>v' st'. ws v' = ws cl \<Longrightarrow> clients st' = AList.update cid v' (clients st)
        \<Longrightarrow> registry_ok st' used"
      using registry_ok_touch[OF assms Some] by blast
    show ?thesis
    proof (cases m)
      case (HostReadyMsg sid)
      have "registry_ok (fst (handleHostReady cid sid st)) used"
        by (rule touch[where v' = "cl\<lparr>sessionId := Some sid, ctype := Some Host\<rparr>"])
           (auto simp: handleHostReady_def Let_def Some split: option.splits)
      then show ?thesis using Parsed HostReadyMsg Some
        by (simp add: on_message_def handleMessage_def)
    next
      case (ViewerJoinMsg sid vid)
      show ?thesis
      proof (cases "map_of (sessions st) sid")
        case None
        then show ?thesis using Parsed ViewerJoinMsg Some assms
          by (simp add: on_message_def handleMessage_def handleViewerJoin_def)
      next
        case sess: (Some sess)
        have "registry_ok (fst (the (handleViewerJoin cid sid vid st))) used"
          by (rule touch[where v' = "cl\<lparr>sessionId := Some sid, ctype := Some Viewer,
                viewerId := Some vid\<rparr>"])
             (auto simp: handleViewerJoin_def Let_def Some sess)
        then show ?thesis using Parsed ViewerJoinMsg Some sess
          by (simp add: on_message_def handleMessage_def handleViewerJoin_def Let_def)
      qed
    next
      case (StatsMsg sid d)
      then show ?thesis using Parsed Some assms
        by (auto simp: on_message_def handleMessage_def handleStats_def
            intro: registry_ok_same split: option.splits)
    qed (use Parsed Some assms in \<open>simp_all add: on_message_def handleMessage_def\<close>)
  qed
qed

lemma registry_ok_healthCheck_fold:
  "registry_ok st used \<Longrightarrow> registry_ok (fst (fold healthCheckVisit xs (st, acts))) used"
proof (induction xs arbitrary: st acts)
  case Nil
  then show ?case by simp
next
  case (Cons x xs)
  obtain st' acts' where v: "healthCheckVisit x (st, acts) = (st', acts')"
    by (cases "healthCheckVisit x (st, acts)")
  have "registry_ok st' used"
    using v Cons.prems
    by (cases x) (auto simp: healthCheckVisit_def split: if_splits
        intro: registry_ok_same registry_ok_delete)
  then show ?case using Cons.IH[of st' acts'] v by simp
qed

lemma registry_ok_step:
  assumes "registry_ok st used"
    and "\<And>cid w. e \<noteq> Connection cid w"
  shows "registry_ok (step e st) used"
proof (cases e)
  case (Connection cid w)
  then show ?thesis using assms(2) by simp
next
  case (MessageEv cid w data)
  then show ?thesis using registry_ok_message[OF assms(1)] by (simp add: step_def)
next
  case (CloseEv cid w)
  have "registry_ok (st\<lparr>readyState := (readyState st)(w := CLOSED)\<rparr>) used"
    by (rule registry_ok_same[OF assms(1)]) simp
  then show ?thesis using CloseEv
    by (auto simp: step_def on_close_def handleDisconnection_clients intro: registry_ok_delete)
next
  case (PongEv cid)
  show ?thesis
  proof (cases "map_of (clients st) cid")
    case None
    then show ?thesis using PongEv assms(1) by (simp add: step_def on_pong_def)
  next
    case (Some cl)
    have "registry_ok (on_pong cid st) used"
      by (rule registry_ok_touch[OF assms(1) Some, where v' = "cl\<lparr>lastPong := clock st\<rparr>"])
         (simp_all add: on_pong_def Some)
    then show ?thesis using PongEv by (simp add: step_def)
  qed
next
  case HealthCheckEv
  then show ?thesis using registry_ok_healthCheck_fold[OF assms(1)]
    by (simp add: step_def healthCheck_def)
next
  case (ClockEv t)
  then show ?thesis by (auto intro: registry_ok_same[OF assms(1)] simp: step_def)
next
  case (ReadyStateEv w r)
  then show ?thesis by (auto intro: registry_ok_same[OF assms(1)] simp: step_def)
qed

lemma fresh_sockets_other:
  "(\<And>cid w. e \<noteq> Connection cid w) \<Longrightarrow> fresh_sockets (e # es) used = fresh_sockets es used"
  by (cases e) auto

lemma registry_ok_run:
  "registry_ok st used \<Longrightarrow> fresh_sockets evs used \<Longrightarrow> \<exists>used'. registry_ok (run evs st) used'"
proof (induction evs arbitrary: st used)
  case Nil
  then show ?case by (auto simp: run_def)
next
  case (Cons e es)
  show ?case
  proof (cases "\<exists>cid w. e = Connection cid w")
    case True
    then obtain cid w where e: "e = Connection cid w" by blast
    with Cons.prems have "registry_ok (step e st) (w # used)" and "fresh_sockets es (w # used)"
      by (simp_all add: step_def registry_ok_connection)
    then show ?thesis using Cons.IH by (simp add: run_Cons)
  next
    case False
    then have other: "\<And>cid w. e \<noteq> Connection cid w" by blast
    have "registry_ok (step e st) used"
      by (rule registry_ok_step[OF Cons.prems(1) other])
    moreover have "fresh_sockets es used"
      using Cons.prems(2) fresh_sockets_other[OF other] by simp
    ultimately show ?thesis using Cons.IH by (simp add: run_Cons)
  qed
qed

lemma fresh_run_registry:
  "fresh_sockets evs [] \<Longrightarrow>
   distinct (map fst (clients (run evs (new_server t)))) \<and> distinct (sockets (run evs (new_server t)))"
proof -
  assume f: "fresh_sockets evs []"
  have "registry_ok (new_server t) []"
    by (simp add: registry_ok_def new_server_def sockets_def)
  from registry_ok_run[OF this f] show ?thesis by (auto simp: registry_ok_def)
qed

section \<open>Heartbeat\<close>

lemma visit_acts_mono:
  "set acts \<subseteq> set (snd (fold healthCheckVisit xs (st, acts)))"
proof (induction xs arbitrary: st acts)
  case Nil
  then show ?case by simp
next
  case (Cons x xs)
  obtain st' acts' where v: "healthCheckVisit x (st, acts) = (st', acts')"
    by (cases "healthCheckVisit x (st, acts)")
  then have "set acts \<subseteq> set acts'"
    by (cases x) (auto simp: healthCheckVisit_def split: if_splits)
  then show ?case using Cons.IH[of acts' st'] v by auto
qed

text \<open>A visit leaves the clock alone and changes the state of no socket but its own.\<close>

lemma visit_preserves:
  assumes "healthCheckVisit x (st, acts) = (st', acts')"
  shows "clock st' = clock st"
    and "w \<noteq> ws (snd x) \<Longrightarrow> readyState st' w = readyState st w"
  using assms by (cases x; auto simp: healthCheckVisit_def split: if_splits)+

lemma visit_fold_does:
  assumes "(cid, cl) \<in> set xs"
    and "distinct (map (\<lambda>entry. ws (snd entry)) xs)"
    and "readyState st (ws cl) = OPEN"
  shows "(if clock st - lastPong cl > pongTimeout then WsTerminate cid (ws cl)
          else WsPing cid (ws cl))
         \<in> set (snd (fold healthCheckVisit xs (st, acts)))"
  using assms
proof (induction xs arbitrary: st acts)
  case Nil
  then show ?case by simp
next
  case (Cons x xs)
  obtain st' acts' where v: "healthCheckVisit x (st, acts) = (st', acts')"
    by (cases "healthCheckVisit x (st, acts)")
  show ?case
  proof (cases "x = (cid, cl)")
    case True
    then have "(if clock st - lastPong cl > pongTimeout then WsTerminate cid (ws cl)
          else WsPing cid (ws cl)) \<in> set acts'"
      using v Cons.prems(3) by (auto simp: healthCheckVisit_def split: if_splits)
    then show ?thesis using visit_acts_mono[of acts' xs st'] v by auto
  next
    case False
    then have mem: "(cid, cl) \<in> set xs" using Cons.prems(1) by auto
    have "ws (snd x) \<notin> (\<lambda>entry. ws (snd entry)) ` set xs"
      using Cons.prems(2) by simp
    moreover have "ws cl \<in> (\<lambda>entry. ws (snd entry)) ` set xs"
      using mem by (auto simp: image_iff intro!: bexI[of _ "(cid, cl)"])
    ultimately have ne: "ws cl \<noteq> ws (snd x)" by metis
    have d: "distinct (map (\<lambda>entry. ws (snd entry)) xs)" using Cons.prems(2) by simp
    have r: "readyState st' (ws cl) = OPEN"
      using visit_preserves(2)[OF v ne] Cons.prems(3) by simp
    have c: "clock st' = clock st" using visit_preserves(1)[OF v] .
    show ?thesis using Cons.IH[OF mem d r, of acts'] v c by simp
  qed
qed

lemma visit_fold_only:
  assumes "a \<in> set (snd (fold healthCheckVisit xs (st, acts)))"
  shows "a \<in> set acts
       \<or> (\<exists>cid cl. (cid, cl) \<in> set xs \<and>
            (a = WsTerminate cid (ws cl) \<and> clock st - lastPong cl > pongTimeout
             \<or> a = WsPing cid (ws cl) \<and> \<not> clock st - lastPong cl > pongTimeout))"
  using assms
proof (induction xs arbitrary: st acts)
  case Nil
  then show ?case by simp
next
  case (Cons x xs)
  obtain st' acts' where v: "healthCheckVisit x (st, acts) = (st', acts')"
    by (cases "healthCheckVisit x (st, acts)")
  have c: "clock st' = clock st" using visit_preserves(1)[OF v] .
  from Cons.prems v have "a \<in> set (snd (fold healthCheckVisit xs (st', acts')))" by simp
  from Cons.IH[OF this] c
  consider "a \<in> set acts'"
    | "\<exists>cid cl. (cid, cl) \<in> set xs \<and>
            (a = WsTerminate cid (ws cl) \<and> clock st - lastPong cl > pongTimeout
             \<or> a = WsPing cid (ws cl) \<and> \<not> clock st - lastPong cl > pongTimeout)"
    by auto
  then show ?case
  proof cases
    case 1
    with v have "a \<in> set acts
        \<or> a = WsTerminate (fst x) (ws (snd x)) \<and> clock st - lastPong (snd x) > pongTimeout
        \<or> a = WsPing (fst x) (ws (snd x)) \<and> \<not> clock st - lastPong (snd x) > pongTimeout"
      by (cases x) (auto simp: healthCheckVisit_def split: if_splits)
    moreover have "(fst x, snd x) \<in> set (x # xs)" by simp
    ultimately show ?thesis by blast
  next
    case 2
    then show ?thesis by auto
  qed
qed

lemma tick_decision_in_state:
  assumes "(cid, cl) \<in> set (clients st)"
    and "distinct (sockets st)"
    and "readyState st (ws cl) = OPEN"
  shows "(pongTimeout < clock st - lastPong cl \<longrightarrow>
            WsTerminate cid (ws cl) \<in> set (snd (healthCheck st))
          \<and> WsPing cid (ws cl) \<notin> set (snd (healthCheck st)))
       \<and> (\<not> pongTimeout < clock st - lastPong cl \<longrightarrow>
            WsPing cid (ws cl) \<in> set (snd (healthCheck st))
          \<and> WsTerminate cid (ws cl) \<notin> set (snd (healthCheck st)))
       \<and> step (CloseEv cid (ws cl)) (fst (healthCheck st)) =
           fst (handleDisconnection cid
                  ((fst (healthCheck st))\<lparr>readyState :=
                     (readyState (fst (healthCheck st)))(ws cl := CLOSED)\<rparr>))
       \<and> map_of (clients (step (CloseEv cid (ws cl)) (fst (healthCheck st)))) cid = None
       \<and> lastPong (the (map_of (clients (on_pong cid st)) cid)) = clock st"
proof -
  have d: "distinct (map (\<lambda>entry. ws (snd entry)) (clients st))"
    using assms(2) by (simp add: sockets_def)
  have does: "(if clock st - lastPong cl > pongTimeout then WsTerminate cid (ws cl)
          else WsPing cid (ws cl)) \<in> set (snd (healthCheck st))"
    unfolding healthCheck_def by (rule visit_fold_does[OF assms(1) d assms(3)])
  have uniq: "\<And>cid' cl'. (cid', cl') \<in> set (clients st) \<Longrightarrow> ws cl' = ws cl \<Longrightarrow> cl' = cl"
  proof -
    fix cid' cl'
    assume m: "(cid', cl') \<in> set (clients st)" and e: "ws cl' = ws cl"
    have "inj_on (\<lambda>entry. ws (snd entry)) (set (clients st))"
      using d by (simp add: distinct_map)
    from inj_onD[OF this, of "(cid', cl')" "(cid, cl)"] m assms(1) e
    show "cl' = cl" by simp
  qed
  have noping: "pongTimeout < clock st - lastPong cl \<Longrightarrow>
      WsPing cid (ws cl) \<notin> set (snd (healthCheck st))"
  proof
    assume s: "pongTimeout < clock st - lastPong cl"
      and "WsPing cid (ws cl) \<in> set (snd (healthCheck st))"
    then obtain cid' cl' where "(cid', cl') \<in> set (clients st)" "ws cl' = ws cl"
        "\<not> clock st - lastPong cl' > pongTimeout"
      using visit_fold_only[of "WsPing cid (ws cl)" "clients st" st "[]"]
      by (auto simp: healthCheck_def)
    then show False using uniq s by blast
  qed
  have noterm: "\<not> pongTimeout < clock st - lastPong cl \<Longrightarrow>
      WsTerminate cid (ws cl) \<notin> set (snd (healthCheck st))"
  proof
    assume s: "\<not> pongTimeout < clock st - lastPong cl"
      and "WsTerminate cid (ws cl) \<in> set (snd (healthCheck st))"
    then obtain cid' cl' where "(cid', cl') \<in> set (clients st)" "ws cl' = ws cl"
        "clock st - lastPong cl' > pongTimeout"
      using visit_fold_only[of "WsTerminate cid (ws cl)" "clients st" st "[]"]
      by (auto simp: healthCheck_def)
    then show False using uniq s by blast
  qed
  have reg: "map_of (clients st) cid \<noteq> None"
    using assms(1) by (metis map_of_eq_None_iff fst_conv image_eqI)
  have pong: "lastPong (the (map_of (clients (on_pong cid st)) cid)) = clock st"
    using reg by (auto simp: on_pong_def update_conv')
  show ?thesis
    using does noping noterm pong handleDisconnection_unregisters
    by (auto simp: step_def on_close_def split: if_splits)
qed

text \<open>
  C9. Let \<open>st\<close> be a state the server reaches from its start by events whose
  connections each bring a new socket. At a tick of the health check in \<open>st\<close>, for a
  registry entry whose socket is open: if the clock is more than \<open>pongTimeout\<close> (60000)
  past the entry's \<open>lastPong\<close>, \<open>terminate\<close> is called on its socket and no ping is
  sent to it; otherwise a ping is sent and it is not terminated. The \<open>close\<close> event of a
  terminated socket runs \<open>handleDisconnection\<close>, as that of any close does, after
  which the connection is out of the registry. A pong sets the entry's \<open>lastPong\<close> to
  the clock.
\<close>

theorem heartbeat_tick:
  assumes "fresh_sockets evs []"
    and "st = run evs (new_server t)"
    and "(cid, cl) \<in> set (clients st)"
    and "readyState st (ws cl) = OPEN"
  shows "(pongTimeout < clock st - lastPong cl \<longrightarrow>
            WsTerminate cid (ws cl) \<in> set (snd (healthCheck st))
          \<and> WsPing cid (ws cl) \<notin> set (snd (healthCheck st)))
       \<and> (\<not> pongTimeout < clock st - lastPong cl \<longrightarrow>
            WsPing cid (ws cl) \<in> set (snd (healthCheck st))
          \<and> WsTerminate cid (ws cl) \<notin> set (snd (healthCheck st)))
       \<and> step (CloseEv cid (ws cl)) (fst (healthCheck st)) =
           fst (handleDisconnection cid
                  ((fst (healthCheck st))\<lparr>readyState :=
                     (readyState (fst (healthCheck st)))(ws cl := CLOSED)\<rparr>))
       \<and> map_of (clients (step (CloseEv cid (ws cl)) (fst (healthCheck st)))) cid = None
       \<and> lastPong (the (map_of (clients (on_pong cid st)) cid)) = clock st"
proof -
  have "distinct (sockets st)"
    using fresh_run_registry[OF assms(1), of t] assms(2) by simp
  then show ?thesis
    by (rule tick_decision_in_state[OF assms(3) _ assms(4)])
qed

text \<open>Witness: at time 70000 the host's last pong is 70000 old and it is terminated;
  the viewer, whose pong came at 50000, is pinged.\<close>

theorem heartbeat_tick_witness:
  "fresh_sockets evs_hb []
   \<and> state_hb = run evs_hb (new_server 0)
   \<and> readyState state_hb 1 = OPEN
   \<and> pongTimeout < clock state_hb - lastPong (the (map_of (clients state_hb) ''client_h''))
   \<and> WsTerminate ''client_h'' 1 \<in> set (snd (healthCheck state_hb))
   \<and> WsPing ''client_h'' 1 \<notin> set (snd (healthCheck state_hb))
   \<and> map_of (clients (step (CloseEv ''client_h'' 1) (fst (healthCheck state_hb)))) ''client_h''
       = None
   \<and> snd (healthCheck state_hb) = [WsTerminate ''client_h'' 1, WsPing ''client_v1'' 2]"
proof -
  let ?h = "\<lparr>ws = 1, sessionId = Some ''abc'', ctype = Some Host, connectedAt = 0,
           lastPong = 0, viewerId = None\<rparr>"
  have f: "fresh_sockets evs_hb []" by (simp add: evs_hb_def evs_B_def evs_A_def)
  have e: "state_hb = run evs_hb (new_server 0)" by (simp add: state_hb_def)
  have m: "(''client_h'', ?h) \<in> set (clients state_hb)" by (simp add: state_hb_value)
  have d: "distinct (sockets state_hb)" by (simp add: state_hb_value sockets_def)
  have r: "readyState state_hb (ws ?h) = OPEN" by (simp add: state_hb_value)
  have s: "pongTimeout < clock state_hb - lastPong ?h"
    by (simp add: state_hb_value pongTimeout_def)
  have l: "map_of (clients state_hb) ''client_h'' = Some ?h" by (simp add: state_hb_value)
  have a: "snd (healthCheck state_hb) = [WsTerminate ''client_h'' 1, WsPing ''client_v1'' 2]"
    by (simp add: state_hb_value healthCheck_def healthCheckVisit_def pongTimeout_def)
  note t = heartbeat_tick[OF f e m r]
  from t s have t1: "WsTerminate ''client_h'' (ws ?h) \<in> set (snd (healthCheck state_hb))"
    and t2: "WsPing ''client_h'' (ws ?h) \<notin> set (snd (healthCheck state_hb))"
    by blast+
  from t have t3: "map_of (clients (step (CloseEv ''client_h'' (ws ?h))
      (fst (healthCheck state_hb)))) ''client_h'' = None"
    by blast
  have s': "pongTimeout < clock state_hb - lastPong (the (map_of (clients state_hb) ''client_h''))"
    using s l by simp
  from t1 t2 t3 have "WsTerminate ''client_h'' 1 \<in> set (snd (healthCheck state_hb))
      \<and> WsPing ''client_h'' 1 \<notin> set (snd (healthCheck state_hb))
      \<and> map_of (clients (step (CloseEv ''client_h'' 1) (fst (healthCheck state_hb))))
            ''client_h'' = None"
    by simp
  then show ?thesis using s' f e r a by simp
qed

end
